theory Spec2Isabelle
  imports Complex_Main
begin

section \<open>Common data: error codes and float values\<close>

text \<open>
  The functions of \<^verbatim>\<open>components/audio_processing/audio_processing.c\<close> return an
  \<^verbatim>\<open>esp_err_t\<close>.  The three codes the component itself produces are named; any other
  code (returned by the ESP-DSP library) is carried as a number.
\<close>

datatype esp_err = ESP_OK | ESP_ERR_NO_MEM | ESP_ERR_INVALID_ARG | ESP_ERR_LIB int

text \<open>
  The window coefficients and the windowed samples (lines 63--156) are carried as \<open>fval\<close>:
  the value of the coefficient formula, or an infinity or NaN.  The properties proved of
  that code are about which coefficients are computed and stored, not about their digits,
  and the cosine formulas are kept as they are written.
\<close>

datatype fval = Fin real | PInf | NInf | NaN

text \<open>C's \<^verbatim>\<open>%\<close> on \<^verbatim>\<open>int\<close> truncates towards zero: the result has the sign of the dividend.\<close>

definition c_mod :: "int \<Rightarrow> int \<Rightarrow> int" where
  "c_mod a b = sgn a * (\<bar>a\<bar> mod \<bar>b\<bar>)"

section \<open>Binary32 arithmetic\<close>

text \<open>
  The beat detector, the spectral features and the chord recognizer compute in C
  \<^verbatim>\<open>float\<close>, the IEEE 754 binary32 format: a 24-bit significand, exponents from
  \<open>-126\<close> to \<open>127\<close>, subnormal numbers down to \<open>2 powi (-149)\<close>, two zeros, two infinities
  and NaN.  A value of the format is an \<open>f32\<close>: \<open>Finite x\<close> is the number \<open>x\<close>, with
  \<open>Finite 0\<close> the positive zero; \<open>MinusZero\<close> is the negative zero.  Every operation rounds
  its exact result to the nearest value of the format, halfway cases to the even
  significand, which is the rounding mode in force in the program.
\<close>

datatype f32 = Finite real | MinusZero | PlusInf | MinusInf | NotANumber

text \<open>
  \<open>expo x\<close> is the binary exponent of a nonzero \<open>x\<close>, and \<open>2 powi ulp_exp x\<close> is the spacing
  of the format around \<open>x\<close>: 23 binary places below the leading bit, and never finer than
  \<open>2 powi (-149)\<close>.
\<close>

definition expo :: "real \<Rightarrow> int" where
  "expo x = \<lfloor>log 2 \<bar>x\<bar>\<rfloor>"

definition ulp_exp :: "real \<Rightarrow> int" where
  "ulp_exp x = max (expo x - 23) (- 149)"

text \<open>The nearest integer, halfway cases to the even one.\<close>

definition rne :: "real \<Rightarrow> int" where
  "rne y =
     (let f = \<lfloor>y\<rfloor>; r = y - of_int f
      in if r < 1/2 then f else if 1/2 < r then f + 1 else if even f then f else f + 1)"

text \<open>The nearest multiple of the spacing around \<open>x\<close>.\<close>

definition quant :: "real \<Rightarrow> real" where
  "quant x = (if x = 0 then 0 else of_int (rne (x / 2 powi ulp_exp x)) * 2 powi ulp_exp x)"

text \<open>
  The rounding of an exact result \<open>x\<close>: it overflows to an infinity when the rounded number
  is not below \<open>2 ^ 128\<close>, and a negative \<open>x\<close> that rounds to zero gives the negative zero.
\<close>

definition round32 :: "real \<Rightarrow> f32" where
  "round32 x =
     (if 2 ^ 128 \<le> quant x then PlusInf
      else if quant x \<le> - (2 ^ 128) then MinusInf
      else if quant x = 0 \<and> x < 0 then MinusZero
      else Finite (quant x))"

fun is_nan :: "f32 \<Rightarrow> bool" where
  "is_nan NotANumber = True"
| "is_nan (Finite x) = False"
| "is_nan MinusZero = False"
| "is_nan PlusInf = False"
| "is_nan MinusInf = False"

fun is_inf :: "f32 \<Rightarrow> bool" where
  "is_inf PlusInf = True"
| "is_inf MinusInf = True"
| "is_inf (Finite x) = False"
| "is_inf MinusZero = False"
| "is_inf NotANumber = False"

fun is_zero :: "f32 \<Rightarrow> bool" where
  "is_zero (Finite x) = (x = 0)"
| "is_zero MinusZero = True"
| "is_zero PlusInf = False"
| "is_zero MinusInf = False"
| "is_zero NotANumber = False"

text \<open>The sign bit of a value that is not NaN.\<close>

fun sign_bit :: "f32 \<Rightarrow> bool" where
  "sign_bit (Finite x) = (x < 0)"
| "sign_bit MinusZero = True"
| "sign_bit PlusInf = False"
| "sign_bit MinusInf = True"
| "sign_bit NotANumber = False"

text \<open>The number a finite value stands for (the entry for the other values is not used).\<close>

fun f32_val :: "f32 \<Rightarrow> real" where
  "f32_val (Finite x) = x"
| "f32_val MinusZero = 0"
| "f32_val PlusInf = 0"
| "f32_val MinusInf = 0"
| "f32_val NotANumber = 0"

definition signed_zero :: "bool \<Rightarrow> f32" where
  "signed_zero s = (if s then MinusZero else Finite 0)"

definition signed_inf :: "bool \<Rightarrow> f32" where
  "signed_inf s = (if s then MinusInf else PlusInf)"

fun f32_neg :: "f32 \<Rightarrow> f32" where
  "f32_neg (Finite x) = (if x = 0 then MinusZero else Finite (- x))"
| "f32_neg MinusZero = Finite 0"
| "f32_neg PlusInf = MinusInf"
| "f32_neg MinusInf = PlusInf"
| "f32_neg NotANumber = NotANumber"

text \<open>
  Addition: infinities of opposite sign give NaN; two zeros give the negative zero only when
  both are negative; an exact sum of zero from nonzero operands is the positive zero.
\<close>

definition f32_add :: "f32 \<Rightarrow> f32 \<Rightarrow> f32" where
  "f32_add x y =
     (if is_nan x \<or> is_nan y then NotANumber
      else if is_inf x \<and> is_inf y then (if sign_bit x = sign_bit y then x else NotANumber)
      else if is_inf x then x
      else if is_inf y then y
      else if is_zero x \<and> is_zero y then signed_zero (sign_bit x \<and> sign_bit y)
      else round32 (f32_val x + f32_val y))"

definition f32_sub :: "f32 \<Rightarrow> f32 \<Rightarrow> f32" where
  "f32_sub x y = f32_add x (f32_neg y)"

text \<open>Multiplication and division: the sign of the result is the exclusive or of the signs.\<close>

definition f32_mul :: "f32 \<Rightarrow> f32 \<Rightarrow> f32" where
  "f32_mul x y =
     (if is_nan x \<or> is_nan y then NotANumber
      else if (is_inf x \<and> is_zero y) \<or> (is_zero x \<and> is_inf y) then NotANumber
      else if is_inf x \<or> is_inf y then signed_inf (sign_bit x \<noteq> sign_bit y)
      else if is_zero x \<or> is_zero y then signed_zero (sign_bit x \<noteq> sign_bit y)
      else round32 (f32_val x * f32_val y))"

definition f32_div :: "f32 \<Rightarrow> f32 \<Rightarrow> f32" where
  "f32_div x y =
     (if is_nan x \<or> is_nan y then NotANumber
      else if (is_inf x \<and> is_inf y) \<or> (is_zero x \<and> is_zero y) then NotANumber
      else if is_inf x \<or> is_zero y then signed_inf (sign_bit x \<noteq> sign_bit y)
      else if is_inf y \<or> is_zero x then signed_zero (sign_bit x \<noteq> sign_bit y)
      else round32 (f32_val x / f32_val y))"

text \<open>
  The comparisons \<^verbatim>\<open>>\<close>, \<^verbatim>\<open>>=\<close> and \<^verbatim>\<open><\<close>: false as soon as an operand is NaN, and the
  two zeros compare equal.
\<close>

definition f32_gt :: "f32 \<Rightarrow> f32 \<Rightarrow> bool" where
  "f32_gt x y =
     (if is_nan x \<or> is_nan y then False
      else if x = PlusInf then y \<noteq> PlusInf
      else if y = MinusInf then x \<noteq> MinusInf
      else if x = MinusInf \<or> y = PlusInf then False
      else f32_val y < f32_val x)"

definition f32_lt :: "f32 \<Rightarrow> f32 \<Rightarrow> bool" where
  "f32_lt x y = f32_gt y x"

definition f32_ge :: "f32 \<Rightarrow> f32 \<Rightarrow> bool" where
  "f32_ge x y = (if is_nan x \<or> is_nan y then False else \<not> f32_gt y x)"

text \<open>The conversion of an \<^verbatim>\<open>int\<close> or \<^verbatim>\<open>int64_t\<close> to \<^verbatim>\<open>float\<close>.\<close>

definition f32_of_int :: "int \<Rightarrow> f32" where
  "f32_of_int i = round32 (real_of_int i)"

section \<open>Beat detector (audio\_processing.c, lines 374--436)\<close>

text \<open>
  \<^verbatim>\<open>audio_features_t\<close> and \<^verbatim>\<open>beat_detector_t\<close> of \<^verbatim>\<open>audio_processing.h\<close>.
  \<^verbatim>\<open>int\<close> and \<^verbatim>\<open>int64_t\<close> fields are unbounded integers: signed overflow is undefined
  in C, and the timestamps are microsecond counters.  The field \<^verbatim>\<open>tempo\<close> of the features
  is \<open>tempo_f\<close> here, since the detector has a field of the same name.
\<close>

record audio_features =
  energy :: f32
  spectral_centroid :: f32
  spectral_rolloff :: f32
  spectral_spread :: f32
  spectral_skewness :: f32
  spectral_kurtosis :: f32
  zero_crossing_rate :: f32
  mfcc :: "f32 list"
  chroma :: "f32 list"
  tempo_f :: f32
  timestamp :: int

text \<open>A features structure cleared by \<^verbatim>\<open>memset\<close>, with the energy and the timestamp set.\<close>

definition frame :: "f32 \<Rightarrow> int \<Rightarrow> audio_features" where
  "frame e t =
     \<lparr>energy = e, spectral_centroid = Finite 0, spectral_rolloff = Finite 0,
      spectral_spread = Finite 0, spectral_skewness = Finite 0, spectral_kurtosis = Finite 0,
      zero_crossing_rate = Finite 0,
      mfcc = replicate 13 (Finite 0), chroma = replicate 12 (Finite 0),
      tempo_f = Finite 0, timestamp = t\<rparr>"

record beat_detector =
  energy_history :: "f32 list"
  beat_intervals :: "f32 list"
  history_index :: int
  beat_count :: int
  tempo :: f32
  confidence :: f32
  last_beat_time :: int

text \<open>\<^verbatim>\<open>memset(detector, 0, sizeof(beat_detector_t)); detector->tempo = 120.0f;\<close>\<close>

definition zeroed_detector :: beat_detector where
  "zeroed_detector =
     \<lparr>energy_history =
        [Finite 0, Finite 0, Finite 0, Finite 0, Finite 0, Finite 0, Finite 0, Finite 0,
         Finite 0, Finite 0, Finite 0, Finite 0, Finite 0, Finite 0, Finite 0, Finite 0],
      beat_intervals =
        [Finite 0, Finite 0, Finite 0, Finite 0, Finite 0, Finite 0, Finite 0, Finite 0],
      history_index = 0, beat_count = 0, tempo = Finite 0, confidence = Finite 0,
      last_beat_time = 0\<rparr>"

definition audio_beat_detector_init :: "beat_detector option \<Rightarrow> esp_err \<times> beat_detector option" where
  "audio_beat_detector_init detector =
     (case detector of
        None \<Rightarrow> (ESP_ERR_INVALID_ARG, None)
      | Some d \<Rightarrow> (ESP_OK, Some (zeroed_detector\<lparr>tempo := Finite 120\<rparr>)))"

text \<open>
  The average of the ring, lines 399--403: the sixteen slots are added to \<^verbatim>\<open>0.0f\<close> one
  after the other from slot 0, each addition rounding, and the sum is divided by
  \<^verbatim>\<open>16.0f\<close>.
\<close>

definition avg_energy :: "f32 list \<Rightarrow> f32" where
  "avg_energy hist =
     f32_div (fold (\<lambda>i a. f32_add a (hist ! i)) [0..<16] (Finite 0)) (Finite 16)"

text \<open>The sum of the first \<open>count\<close> interval slots, lines 421--425.\<close>

definition sum_intervals :: "f32 list \<Rightarrow> int \<Rightarrow> f32" where
  "sum_intervals ivs count = fold (\<lambda>i a. f32_add a (ivs ! i)) [0..<nat count] (Finite 0)"

text \<open>
  The body of \<^verbatim>\<open>audio_beat_detector_process\<close> after the null checks, lines 392--435.
  It returns the new detector and the value written to \<^verbatim>\<open>*beat_detected\<close>.
  The ring index is assumed to lie in 0..15 (outside it the C store is out of bounds).
  The literal \<^verbatim>\<open>1.3f\<close> is the binary32 value nearest to 1.3; \<^verbatim>\<open>16.0f\<close>,
  \<^verbatim>\<open>60.0f\<close> and \<^verbatim>\<open>1000000.0f\<close> are values of the format.  In
  \<^verbatim>\<open>(now - detector->last_beat_time) / 1000000.0f\<close> and \<^verbatim>\<open>avg_interval /= count\<close> the
  integer operand is converted to \<^verbatim>\<open>float\<close> before the division.
\<close>

definition beat_process_body :: "beat_detector \<Rightarrow> audio_features \<Rightarrow> beat_detector \<times> bool" where
  "beat_process_body d f =
     (let hist = (energy_history d)[nat (history_index d) := energy f];
          d1 = d\<lparr>energy_history := hist,
                 history_index := c_mod (history_index d + 1) 16\<rparr>;
          avg = avg_energy hist;
          beat_threshold = f32_mul (round32 (13/10)) avg;
          now = timestamp f
      in if f32_gt (energy f) beat_threshold \<and> now - last_beat_time d1 > 200000 then
           let d2 =
                 (if beat_count d1 > 0 then
                    let interval = f32_div (f32_of_int (now - last_beat_time d1)) (Finite 1000000);
                        interval_idx = c_mod (beat_count d1) 8;
                        ivs = (beat_intervals d1)[nat interval_idx := interval];
                        count = (if beat_count d1 < 8 then beat_count d1 else 8);
                        avg_interval = f32_div (sum_intervals ivs count) (f32_of_int count)
                    in d1\<lparr>beat_intervals := ivs, tempo := f32_div (Finite 60) avg_interval\<rparr>
                  else d1)
           in (d2\<lparr>last_beat_time := now,
                   beat_count := beat_count d2 + 1,
                   confidence := f32_div (f32_sub (energy f) avg) avg\<rparr>, True)
         else (d1, False))"

definition audio_beat_detector_process ::
  "beat_detector option \<Rightarrow> audio_features option \<Rightarrow> bool option
     \<Rightarrow> esp_err \<times> beat_detector option \<times> bool option" where
  "audio_beat_detector_process detector features beat_detected =
     (case (detector, features, beat_detected) of
        (Some d, Some f, Some b) \<Rightarrow>
          (let (d', beat) = beat_process_body d f in (ESP_OK, Some d', Some beat))
      | _ \<Rightarrow> (ESP_ERR_INVALID_ARG, detector, beat_detected))"

text \<open>
  A sequence of calls on one detector: the detector after the calls, and the list of the
  \<^verbatim>\<open>beat_detected\<close> flags, one per call.
\<close>

fun run_detector :: "beat_detector \<Rightarrow> audio_features list \<Rightarrow> beat_detector \<times> bool list" where
  "run_detector d [] = (d, [])"
| "run_detector d (f # fs) =
     (case audio_beat_detector_process (Some d) (Some f) (Some False) of
        (err, Some d', Some beat) \<Rightarrow>
          (let (d'', beats) = run_detector d' fs in (d'', beat # beats))
      | _ \<Rightarrow> (d, []))"

section \<open>Configuration and window coefficients (audio\_processing.c, lines 10--156)\<close>

record audio_config =
  sample_rate :: int
  fft_size :: int
  window_type :: int
  hop_size :: int
  normalize :: bool

text \<open>
  The file-level variables \<^verbatim>\<open>g_audio_config\<close>, \<^verbatim>\<open>g_initialized\<close> and
  \<^verbatim>\<open>g_window_coeffs\<close>; the coefficient pointer is \<open>None\<close> when it is \<^verbatim>\<open>NULL\<close> and
  otherwise holds the contents of the allocated buffer.
\<close>

record globals =
  g_audio_config :: audio_config
  g_initialized :: bool
  g_window_coeffs :: "fval list option"

definition AUDIO_WINDOW_HANN :: int where "AUDIO_WINDOW_HANN = 0"
definition AUDIO_WINDOW_HAMMING :: int where "AUDIO_WINDOW_HAMMING = 1"
definition AUDIO_WINDOW_BLACKMAN :: int where "AUDIO_WINDOW_BLACKMAN = 2"

text \<open>
  \<^verbatim>\<open>cosf(k * M_PI * i / (length - 1))\<close>.  When \<open>length - 1 = 0\<close> the quotient is NaN or
  an infinity, and the cosine of either is NaN; NaN then propagates through the sums and
  products of the coefficient formula and through the product with the sample.
\<close>

definition cos_term :: "real \<Rightarrow> int \<Rightarrow> int \<Rightarrow> real option" where
  "cos_term k i len =
     (if len - 1 = 0 then None
      else Some (cos (k * pi * real_of_int i / real_of_int (len - 1))))"

definition hann_coeff :: "int \<Rightarrow> int \<Rightarrow> fval" where
  "hann_coeff i len =
     (case cos_term 2 i len of None \<Rightarrow> NaN | Some c \<Rightarrow> Fin (0.5 * (1 - c)))"

definition hamming_coeff :: "int \<Rightarrow> int \<Rightarrow> fval" where
  "hamming_coeff i len =
     (case cos_term 2 i len of None \<Rightarrow> NaN | Some c \<Rightarrow> Fin (0.54 - 0.46 * c))"

definition blackman_coeff :: "int \<Rightarrow> int \<Rightarrow> fval" where
  "blackman_coeff i len =
     (case (cos_term 2 i len, cos_term 4 i len) of
        (Some c2, Some c4) \<Rightarrow> Fin (0.42 - 0.50 * c2 + 0.08 * c4)
      | _ \<Rightarrow> NaN)"

text \<open>The product of a (finite) sample with a coefficient.\<close>

fun fmul :: "real \<Rightarrow> fval \<Rightarrow> fval" where
  "fmul s (Fin c) = Fin (s * c)"
| "fmul s PInf = (if s = 0 then NaN else if 0 < s then PInf else NInf)"
| "fmul s NInf = (if s = 0 then NaN else if 0 < s then NInf else PInf)"
| "fmul s NaN = NaN"

text \<open>
  \<^verbatim>\<open>generate_window_coeffs\<close>, lines 63--105.  The old buffer is freed first and the pointer
  is overwritten with the result of \<^verbatim>\<open>malloc\<close>; \<open>malloc_ok\<close> says whether that allocation
  succeeds.  \<open>window_table\<close> is the \<^verbatim>\<open>switch\<close> that fills the new buffer.
\<close>

definition window_table :: "int \<Rightarrow> int \<Rightarrow> fval list" where
  "window_table wtype len =
     (if wtype = AUDIO_WINDOW_HANN then
        map (\<lambda>i. hann_coeff (int i) len) [0..<nat len]
      else if wtype = AUDIO_WINDOW_HAMMING then
        map (\<lambda>i. hamming_coeff (int i) len) [0..<nat len]
      else if wtype = AUDIO_WINDOW_BLACKMAN then
        map (\<lambda>i. blackman_coeff (int i) len) [0..<nat len]
      else map (\<lambda>i. Fin 1) [0..<nat len])"

definition generate_window_coeffs :: "bool \<Rightarrow> globals \<Rightarrow> int \<Rightarrow> int \<Rightarrow> esp_err \<times> globals" where
  "generate_window_coeffs malloc_ok g wtype len =
     (if \<not> malloc_ok then (ESP_ERR_NO_MEM, g\<lparr>g_window_coeffs := None\<rparr>)
      else (ESP_OK, g\<lparr>g_window_coeffs := Some (window_table wtype len)\<rparr>))"

text \<open>
  \<^verbatim>\<open>audio_processing_init\<close>, lines 22--61.  \<open>dsps_fft2r_init\<close> stands for the ESP-DSP
  library call \<^verbatim>\<open>dsps_fft2r_init_fc32(NULL, fft_size)\<close>, which is not part of this
  repository: it maps the size to the code the library returns.
\<close>

definition audio_processing_init ::
  "(int \<Rightarrow> esp_err) \<Rightarrow> bool \<Rightarrow> globals \<Rightarrow> audio_config option \<Rightarrow> esp_err \<times> globals" where
  "audio_processing_init dsps_fft2r_init malloc_ok g config =
     (case config of
        None \<Rightarrow> (ESP_ERR_INVALID_ARG, g)
      | Some c \<Rightarrow>
          if fft_size c < 64 \<or> fft_size c > 4096 then (ESP_ERR_INVALID_ARG, g)
          else if sample_rate c < 8000 \<or> sample_rate c > 96000 then (ESP_ERR_INVALID_ARG, g)
          else
            let g1 = g\<lparr>g_audio_config := c\<rparr>;
                ret = dsps_fft2r_init (fft_size c)
            in if ret \<noteq> ESP_OK then (ret, g1)
               else
                 (case generate_window_coeffs malloc_ok g1 (window_type c) (fft_size c) of
                    (ret2, g2) \<Rightarrow>
                      if ret2 \<noteq> ESP_OK then (ret2, g2)
                      else (ESP_OK, g2\<lparr>g_initialized := True\<rparr>)))"

text \<open>
  \<^verbatim>\<open>audio_apply_window\<close>, lines 107--156.  A buffer is a list: its length is the number
  of floats the pointer may be used for.  A call either returns a code together with the
  output buffer, or it reads or writes outside a buffer (\<open>Out_Of_Bounds\<close>), which C leaves
  undefined; \<^verbatim>\<open>memcpy\<close> with a negative \<open>length\<close> is such an access, since the byte count
  is converted to the unsigned \<^verbatim>\<open>size_t\<close>.
\<close>

datatype window_outcome = Returned esp_err "fval list option" | Out_Of_Bounds

definition window_loop :: "(nat \<Rightarrow> fval) \<Rightarrow> real list \<Rightarrow> fval list \<Rightarrow> int \<Rightarrow> window_outcome" where
  "window_loop coeff samples windowed len =
     (if len \<le> 0 then Returned ESP_OK (Some windowed)
      else if nat len \<le> length samples \<and> nat len \<le> length windowed then
        Returned ESP_OK
          (Some (map (\<lambda>i. fmul (samples ! i) (coeff i)) [0..<nat len] @ drop (nat len) windowed))
      else Out_Of_Bounds)"

definition window_switch :: "real list \<Rightarrow> fval list \<Rightarrow> int \<Rightarrow> int \<Rightarrow> window_outcome" where
  "window_switch s w len wtype =
     (if wtype = AUDIO_WINDOW_HANN then
        window_loop (\<lambda>i. hann_coeff (int i) len) s w len
      else if wtype = AUDIO_WINDOW_HAMMING then
        window_loop (\<lambda>i. hamming_coeff (int i) len) s w len
      else if wtype = AUDIO_WINDOW_BLACKMAN then
        window_loop (\<lambda>i. blackman_coeff (int i) len) s w len
      else if len < 0 then Out_Of_Bounds
      else window_loop (\<lambda>i. Fin 1) s w len)"

definition audio_apply_window ::
  "globals \<Rightarrow> real list option \<Rightarrow> fval list option \<Rightarrow> int \<Rightarrow> int \<Rightarrow> window_outcome" where
  "audio_apply_window g samples windowed_samples len wtype =
     (case (samples, windowed_samples) of
        (Some s, Some w) \<Rightarrow>
          (case g_window_coeffs g of
             Some coeffs \<Rightarrow>
               if len = fft_size (g_audio_config g) \<and> wtype = window_type (g_audio_config g) then
                 (if 0 < len \<and> length coeffs < nat len then Out_Of_Bounds
                  else window_loop (\<lambda>i. coeffs ! i) s w len)
               else window_switch s w len wtype
           | None \<Rightarrow> window_switch s w len wtype)
      | _ \<Rightarrow> Returned ESP_ERR_INVALID_ARG windowed_samples)"


section \<open>Spectral rolloff and chroma (audio\_processing.c, lines 212--229 and 334--372)\<close>

text \<open>
  A spectrum is passed as a pointer and a size; the list holds the floats behind the pointer
  and \<open>spectrum_size\<close> is the separate \<^verbatim>\<open>int\<close> argument.  The loops read \<open>spectrum ! i\<close>
  for \<open>1 \<le> i < spectrum_size\<close>, so the theorems assume the list is at least that long.
\<close>

text \<open>
  \<^verbatim>\<open>(float)i * sample_rate / (2.0f * size)\<close>: both integers are converted to
  \<^verbatim>\<open>float\<close>, and the two products and the quotient round.
\<close>

definition bin_freq :: "int \<Rightarrow> int \<Rightarrow> int \<Rightarrow> f32" where
  "bin_freq i srate sz =
     f32_div (f32_mul (f32_of_int i) (f32_of_int srate)) (f32_mul (Finite 2) (f32_of_int sz))"

definition total_energy :: "f32 list \<Rightarrow> int \<Rightarrow> f32" where
  "total_energy spectrum sz = fold (\<lambda>i a. f32_add a (spectrum ! i)) [1..<nat sz] (Finite 0)"

fun rolloff_scan :: "f32 list \<Rightarrow> int \<Rightarrow> int \<Rightarrow> f32 \<Rightarrow> f32 \<Rightarrow> nat list \<Rightarrow> f32" where
  "rolloff_scan spectrum sz srate energy_threshold cumulative_energy [] =
     f32_div (f32_of_int srate) (Finite 2)"
| "rolloff_scan spectrum sz srate energy_threshold cumulative_energy (i # rest) =
     (let c = f32_add cumulative_energy (spectrum ! i)
      in if f32_ge c energy_threshold then bin_freq (int i) srate sz
         else rolloff_scan spectrum sz srate energy_threshold c rest)"

definition calculate_spectral_rolloff :: "f32 list \<Rightarrow> int \<Rightarrow> int \<Rightarrow> f32 \<Rightarrow> f32" where
  "calculate_spectral_rolloff spectrum sz srate threshold =
     (let energy_threshold = f32_mul threshold (total_energy spectrum sz)
      in rolloff_scan spectrum sz srate energy_threshold (Finite 0) [1..<nat sz])"

text \<open>
  Line 251 of \<^verbatim>\<open>audio_extract_features\<close>: the rolloff feature uses the threshold
  \<^verbatim>\<open>0.85f\<close>, the binary32 value nearest to 0.85.
\<close>

definition spectral_rolloff_of :: "f32 list \<Rightarrow> int \<Rightarrow> int \<Rightarrow> f32" where
  "spectral_rolloff_of spectrum sz srate =
     calculate_spectral_rolloff spectrum sz srate (round32 (85/100))"

text \<open>\<^verbatim>\<open>roundf\<close> rounds to the nearest integer, halfway cases away from zero.\<close>

definition roundf :: "real \<Rightarrow> int" where
  "roundf x = (if 0 \<le> x then \<lfloor>x + 1/2\<rfloor> else \<lceil>x - 1/2\<rceil>)"

text \<open>
  \<^verbatim>\<open>12.0f * log2f(freq / 440.0f) + 69.0f\<close>.  \<open>log2f\<close> stands for the function of that
  name of the C library, which is not part of this repository: it maps a float to a float.
\<close>

definition midi_note :: "(f32 \<Rightarrow> f32) \<Rightarrow> f32 \<Rightarrow> f32" where
  "midi_note log2f freq =
     f32_add (f32_mul (Finite 12) (log2f (f32_div freq (Finite 440)))) (Finite 69)"

text \<open>
  \<^verbatim>\<open>((int)roundf(midi_note)) % 12\<close>, made nonnegative.  The conversion to \<^verbatim>\<open>int\<close> is
  defined in C for a finite \<^verbatim>\<open>midi_note\<close> only; it is reached with a frequency between 80
  and 2000, where the logarithm is a finite number.
\<close>

definition pitch_class :: "(f32 \<Rightarrow> f32) \<Rightarrow> f32 \<Rightarrow> int" where
  "pitch_class log2f freq =
     (let pc = c_mod (roundf (f32_val (midi_note log2f freq))) 12
      in if pc < 0 then pc + 12 else pc)"

text \<open>
  One pass of the accumulation loop (lines 344--357, and lines 337--347 of
  \<^verbatim>\<open>musical-dna-sequencer/main/main.c\<close>, which is the same loop with the constants
  \<^verbatim>\<open>FREQ_BINS\<close> and \<^verbatim>\<open>I2S_SAMPLE_RATE\<close>).
\<close>

definition chroma_step ::
  "(f32 \<Rightarrow> f32) \<Rightarrow> f32 list \<Rightarrow> int \<Rightarrow> int \<Rightarrow> nat \<Rightarrow> f32 list \<Rightarrow> f32 list" where
  "chroma_step log2f spectrum sz srate i chr =
     (let freq = bin_freq (int i) srate sz
      in if f32_gt freq (Finite 80) \<and> f32_lt freq (Finite 2000) then
           (let pc = nat (pitch_class log2f freq) in chr[pc := f32_add (chr ! pc) (spectrum ! i)])
         else chr)"

definition chroma_accumulate :: "(f32 \<Rightarrow> f32) \<Rightarrow> f32 list \<Rightarrow> int \<Rightarrow> int \<Rightarrow> f32 list" where
  "chroma_accumulate log2f spectrum sz srate =
     fold (chroma_step log2f spectrum sz srate) [1..<nat sz] (replicate 12 (Finite 0))"

definition chroma_total :: "f32 list \<Rightarrow> f32" where
  "chroma_total chr = fold (\<lambda>i a. f32_add a (chr ! i)) [0..<12] (Finite 0)"

text \<open>
  \<^verbatim>\<open>audio_compute_chroma\<close>.  The output buffer is the 12-float vector the header
  documents; its previous contents are cleared by the \<^verbatim>\<open>memset\<close>.
\<close>

definition audio_compute_chroma ::
  "(f32 \<Rightarrow> f32) \<Rightarrow> f32 list option \<Rightarrow> int \<Rightarrow> int \<Rightarrow> f32 list option
     \<Rightarrow> esp_err \<times> f32 list option" where
  "audio_compute_chroma log2f spectrum spectrum_size srate chroma_out =
     (case (spectrum, chroma_out) of
        (Some s, Some c) \<Rightarrow>
          (let chr = chroma_accumulate log2f s spectrum_size srate;
               chroma_sum = chroma_total chr
           in (ESP_OK,
               Some (if f32_gt chroma_sum (Finite 0) then map (\<lambda>x. f32_div x chroma_sum) chr
                     else chr)))
      | _ \<Rightarrow> (ESP_ERR_INVALID_ARG, chroma_out))"

section \<open>Chord recognizer (musical-dna-sequencer/main/main.c, lines 102--129 and 333--391)\<close>

definition I2S_SAMPLE_RATE :: int where "I2S_SAMPLE_RATE = 44100"
definition N_FFT :: int where "N_FFT = 512"
definition FREQ_BINS :: int where "FREQ_BINS = N_FFT div 2"
definition CHORD_TEMPLATES :: nat where "CHORD_TEMPLATES = 24"

record chord_info =
  root_note :: int
  chord_type :: int
  chord_confidence :: f32
  chord_chroma :: "f32 list"

text \<open>The table of lines 102--129; its entries are the floats 1 and 0.\<close>

definition chord_templates :: "f32 list list" where
  "chord_templates = map (map Finite)
     [[1,0,0,0,1,0,0,1,0,0,0,0],
      [0,1,0,0,0,1,0,0,1,0,0,0],
      [0,0,1,0,0,0,1,0,0,1,0,0],
      [0,0,0,1,0,0,0,1,0,0,1,0],
      [0,0,0,0,1,0,0,0,1,0,0,1],
      [1,0,0,0,0,1,0,0,0,1,0,0],
      [0,1,0,0,0,0,1,0,0,0,1,0],
      [0,0,1,0,0,0,0,1,0,0,0,1],
      [1,0,0,1,0,0,0,0,1,0,0,0],
      [0,1,0,0,1,0,0,0,0,1,0,0],
      [0,0,1,0,0,1,0,0,0,0,1,0],
      [0,0,0,1,0,0,1,0,0,0,0,1],
      [1,0,0,1,0,0,0,1,0,0,0,0],
      [0,1,0,0,1,0,0,0,1,0,0,0],
      [0,0,1,0,0,1,0,0,0,1,0,0],
      [0,0,0,1,0,0,1,0,0,0,1,0],
      [0,0,0,0,1,0,0,1,0,0,0,1],
      [1,0,0,0,0,1,0,0,1,0,0,0],
      [0,1,0,0,0,0,1,0,0,1,0,0],
      [0,0,1,0,0,0,0,1,0,0,1,0],
      [0,0,0,1,0,0,0,0,1,0,0,1],
      [1,0,0,0,1,0,0,0,0,1,0,0],
      [0,1,0,0,0,1,0,0,0,0,1,0],
      [0,0,1,0,0,0,1,0,0,0,0,1]]"

text \<open>
  The inner loop of lines 366--369: the dot product of the chroma with template \<open>c\<close>,
  every product and every addition rounding.
\<close>

definition correlation :: "f32 list \<Rightarrow> nat \<Rightarrow> f32" where
  "correlation chr c =
     fold (\<lambda>i a. f32_add a (f32_mul (chr ! i) ((chord_templates ! c) ! i))) [0..<12] (Finite 0)"

text \<open>The outer loop of lines 362--375, on the pair \<open>(best_match, best_chord)\<close>.\<close>

definition match_step :: "f32 list \<Rightarrow> nat \<Rightarrow> f32 \<times> nat \<Rightarrow> f32 \<times> nat" where
  "match_step chr c best =
     (if f32_gt (correlation chr c) (fst best) then (correlation chr c, c) else best)"

definition match_templates :: "f32 list \<Rightarrow> f32 \<times> nat" where
  "match_templates chr = fold (match_step chr) [0..<CHORD_TEMPLATES] (Finite 0, 0)"

text \<open>
  \<^verbatim>\<open>analyze_chords\<close>: the global \<^verbatim>\<open>current_chord\<close> is passed in and returned.  The
  logging of lines 383--389 does not touch it.  The literal \<^verbatim>\<open>0.3f\<close> is the binary32
  value nearest to 0.3.
\<close>

definition analyze_chords :: "(f32 \<Rightarrow> f32) \<Rightarrow> f32 list \<Rightarrow> chord_info \<Rightarrow> chord_info" where
  "analyze_chords log2f spectrum current_chord =
     (let chr0 = chroma_accumulate log2f spectrum FREQ_BINS I2S_SAMPLE_RATE;
          chroma_sum = chroma_total chr0;
          chr = (if f32_gt chroma_sum (Finite 0) then map (\<lambda>x. f32_div x chroma_sum) chr0
                 else chr0);
          cc1 = (if f32_gt chroma_sum (Finite 0) then current_chord\<lparr>chord_chroma := chr\<rparr>
                 else current_chord);
          (best_match, best_chord) = match_templates chr
      in if f32_gt best_match (round32 (3/10)) then
           cc1\<lparr>root_note := int best_chord mod 12,
               chord_type := (if best_chord \<ge> 12 then 1 else 0),
               chord_confidence := best_match\<rparr>
         else cc1)"

section \<open>Auxiliary notions and sample inputs\<close>

text \<open>The detector as \<^verbatim>\<open>audio_beat_detector_init\<close> leaves it.\<close>

definition init_detector :: beat_detector where
  "init_detector = zeroed_detector\<lparr>tempo := Finite 120\<rparr>"

text \<open>
  The powers of two that a 32-bit \<^verbatim>\<open>int\<close> can hold; the notion comes from the specification,
  the code has no such test.
\<close>

definition power_of_two :: "int \<Rightarrow> bool" where
  "power_of_two n \<longleftrightarrow>
     n \<in> set [1, 2, 4, 8, 16, 32, 64, 128, 256, 512, 1024, 2048, 4096, 8192, 16384, 32768,
              65536, 131072, 262144, 524288, 1048576, 2097152, 4194304, 8388608, 16777216,
              33554432, 67108864, 134217728, 268435456, 536870912, 1073741824]"

text \<open>The file-level variables as the C initialisers leave them.\<close>

definition startup_globals :: globals where
  "startup_globals =
     \<lparr>g_audio_config = \<lparr>sample_rate = 0, fft_size = 0, window_type = 0, hop_size = 0, normalize = False\<rparr>,
      g_initialized = False, g_window_coeffs = None\<rparr>"

definition sample_config :: "int \<Rightarrow> audio_config" where
  "sample_config n =
     \<lparr>sample_rate = 44100, fft_size = n, window_type = AUDIO_WINDOW_HANN, hop_size = 32, normalize = False\<rparr>"

text \<open>The three rejections of lines 23--37.\<close>

definition config_rejected :: "audio_config option \<Rightarrow> bool" where
  "config_rejected config =
     (case config of
        None \<Rightarrow> True
      | Some c \<Rightarrow> fft_size c < 64 \<or> fft_size c > 4096 \<or> sample_rate c < 8000 \<or> sample_rate c > 96000)"

text \<open>The variables after a successful initialisation with a 64-point Hann configuration.\<close>

definition cached_globals :: globals where
  "cached_globals =
     snd (audio_processing_init (\<lambda>n. ESP_OK) True startup_globals (Some (sample_config 64)))"


text \<open>
  The threshold the specification of the beat detector speaks of: 1.3 times the mean of the
  sixteen ring slots, as numbers.
\<close>

definition ring_mean :: "f32 list \<Rightarrow> real" where
  "ring_mean hist = (\<Sum>i = 0..<16. f32_val (hist ! i)) / 16"

text \<open>
  A magnitude: a finite float that is not negative (and not the negative zero), that is, a
  number of the format between 0 and the largest finite float.
\<close>

fun magnitude :: "f32 \<Rightarrow> bool" where
  "magnitude (Finite v) = (0 \<le> v \<and> quant v = v \<and> v < 2 ^ 128)"
| "magnitude MinusZero = False"
| "magnitude PlusInf = False"
| "magnitude MinusInf = False"
| "magnitude NotANumber = False"

text \<open>The test of line 348: the frequency of bin \<open>i\<close> lies strictly between 80 and 2000 Hz.\<close>

definition in_band :: "int \<Rightarrow> int \<Rightarrow> nat \<Rightarrow> bool" where
  "in_band sz srate i \<longleftrightarrow>
     f32_gt (bin_freq (int i) srate sz) (Finite 80) \<and> f32_lt (bin_freq (int i) srate sz) (Finite 2000)"

text \<open>
  The local array \<^verbatim>\<open>chroma\<close> of \<^verbatim>\<open>analyze_chords\<close> after the normalisation loop
  (lines 335--359): the vector the template loop reads.
\<close>

definition frame_chroma :: "(f32 \<Rightarrow> f32) \<Rightarrow> f32 list \<Rightarrow> f32 list" where
  "frame_chroma log2f spectrum =
     (let chr0 = chroma_accumulate log2f spectrum FREQ_BINS I2S_SAMPLE_RATE;
          chroma_sum = chroma_total chr0
      in if f32_gt chroma_sum (Finite 0) then map (\<lambda>x. f32_div x chroma_sum) chr0 else chr0)"

text \<open>The global \<^verbatim>\<open>current_chord\<close> as its initialiser \<^verbatim>\<open>{0}\<close> leaves it.\<close>

definition silent_chord :: chord_info where
  "silent_chord =
     \<lparr>root_note = 0, chord_type = 0, chord_confidence = Finite 0,
      chord_chroma = replicate 12 (Finite 0)\<rparr>"

text \<open>A 256-bin spectrum with magnitude 1 in the listed bins and 0 elsewhere.\<close>

definition tone_spectrum :: "nat list \<Rightarrow> f32 list" where
  "tone_spectrum bins = map (\<lambda>i. if i \<in> set bins then Finite 1 else Finite 0) [0..<256]"

text \<open>
  A base-two logarithm that returns the float nearest to the exact logarithm of a positive
  finite argument, with the values of the C library at the other arguments.
\<close>

definition log2f_rounded :: "f32 \<Rightarrow> f32" where
  "log2f_rounded x =
     (if is_nan x then NotANumber
      else if is_zero x then MinusInf
      else if sign_bit x then NotANumber
      else if x = PlusInf then PlusInf
      else round32 (log 2 (f32_val x)))"


section \<open>Properties of the binary32 rounding\<close>

lemma two_powi_pos: "(0::real) < 2 powi e"
  by simp

lemma log2_powi: "log 2 (2 powi e) = real_of_int e"
proof -
  have "(2::real) powr real_of_int e = 2 powi e" by (rule powr_real_of_int') simp_all
  then have "log 2 (2 powi e) = log 2 (2 powr real_of_int e)" by simp
  also have "\<dots> = real_of_int e" by simp
  finally show ?thesis .
qed

lemma expo_unique:
  assumes "2 powi e \<le> \<bar>x\<bar>" "\<bar>x\<bar> < 2 powi (e + 1)"
  shows "expo x = e"
proof -
  have pos: "0 < \<bar>x\<bar>" using assms(1) two_powi_pos[of e] by linarith
  have one2: "(1::real) < 2" by simp
  have "log 2 (2 powi e) \<le> log 2 \<bar>x\<bar>"
    using assms(1) by (simp only: log_le_cancel_iff[OF one2 two_powi_pos pos])
  then have lo: "real_of_int e \<le> log 2 \<bar>x\<bar>" by (simp only: log2_powi)
  have "log 2 \<bar>x\<bar> < log 2 (2 powi (e + 1))"
    using assms(2) by (simp only: log_less_cancel_iff[OF one2 pos two_powi_pos])
  then have hi: "log 2 \<bar>x\<bar> < real_of_int e + 1" by (simp add: log2_powi)
  from lo hi show ?thesis by (simp add: expo_def floor_eq_iff)
qed

lemma expo_bounds:
  assumes "x \<noteq> 0"
  shows "2 powi (expo x) \<le> \<bar>x\<bar> \<and> \<bar>x\<bar> < 2 powi (expo x + 1)"
proof -
  have pos: "0 < \<bar>x\<bar>" using assms by simp
  have p: "(2::real) powr real_of_int k = 2 powi k" for k by (rule powr_real_of_int') simp_all
  have "real_of_int (expo x) \<le> log 2 \<bar>x\<bar>" by (simp add: expo_def)
  then have "2 powr real_of_int (expo x) \<le> \<bar>x\<bar>"
    using pos by (simp add: powr_le_iff)
  then have lo: "2 powi (expo x) \<le> \<bar>x\<bar>" by (simp only: p)
  have "log 2 \<bar>x\<bar> < real_of_int (expo x + 1)" by (simp add: expo_def)
  then have "\<bar>x\<bar> < 2 powr real_of_int (expo x + 1)"
    using pos by (simp add: less_powr_iff)
  then have "\<bar>x\<bar> < 2 powi (expo x + 1)" by (simp only: p)
  with lo show ?thesis by simp
qed

lemma rne_int: "rne (of_int m) = m"
  by (simp add: rne_def)

lemma rne_error: "\<bar>of_int (rne y) - y\<bar> \<le> 1/2"
proof -
  have "of_int \<lfloor>y\<rfloor> \<le> y" "y < of_int \<lfloor>y\<rfloor> + 1" by linarith+
  then show ?thesis by (auto simp add: rne_def Let_def)
qed

lemma rne_nonneg: "0 \<le> y \<Longrightarrow> 0 \<le> rne y"
proof -
  assume "0 \<le> y"
  then have "0 \<le> \<lfloor>y\<rfloor>" by simp
  then show ?thesis by (auto simp add: rne_def Let_def)
qed


lemma quant_at:
  assumes "2 powi e \<le> \<bar>x\<bar>" "\<bar>x\<bar> < 2 powi (e + 1)"
  shows "quant x = of_int (rne (x / 2 powi (max (e - 23) (- 149)))) * 2 powi (max (e - 23) (- 149))"
proof -
  have "0 < \<bar>x\<bar>" using assms(1) two_powi_pos[of e] by linarith
  then have "x \<noteq> 0" by simp
  moreover have "ulp_exp x = max (e - 23) (- 149)"
    using expo_unique[OF assms] by (simp add: ulp_exp_def)
  ultimately show ?thesis by (simp add: quant_def)
qed

lemma quant_repr:
  assumes x: "x = of_int m * 2 powi e" and m: "\<bar>m\<bar> < 2 ^ 24" and e: "- 149 \<le> e"
  shows "quant x = x"
proof (cases "x = 0")
  case True
  then show ?thesis by (simp add: quant_def)
next
  case False
  have "2 powi (expo x) \<le> \<bar>x\<bar>" using expo_bounds[OF False] by simp
  also have "\<bar>x\<bar> = \<bar>of_int m\<bar> * 2 powi e" by (simp add: x abs_mult)
  also have "\<dots> < 2 ^ 24 * 2 powi e"
  proof -
    have "\<bar>real_of_int m\<bar> < 2 ^ 24" using m by (metis of_int_abs of_int_less_numeral_power_cancel_iff)
    then show ?thesis by (intro mult_strict_right_mono) simp_all
  qed
  also have "\<dots> = 2 powi (e + 24)" by (simp add: power_int_add)
  finally have lt: "(2::real) powi (expo x) < 2 powi (e + 24)" .
  have "expo x < e + 24"
  proof (rule ccontr)
    assume "\<not> expo x < e + 24"
    then have "e + 24 \<le> expo x" by simp
    then have "(2::real) powi (e + 24) \<le> 2 powi (expo x)" by (intro power_int_increasing) simp_all
    with lt show False by simp
  qed
  then have u: "ulp_exp x \<le> e" using e by (simp add: ulp_exp_def)
  define w where "w = ulp_exp x"
  define k where "k = nat (e - w)"
  have ek: "e = w + int k" using u by (simp add: k_def w_def)
  have pw: "(2::real) powi e = 2 powi w * 2 ^ k"
    by (subst ek) (simp add: power_int_add)
  have wpos: "(0::real) < 2 powi w" by simp
  have "x / 2 powi w = of_int m * (2 powi w * 2 ^ k) / 2 powi w" by (simp only: x pw)
  also have "\<dots> = of_int m * 2 ^ k" using wpos by simp
  also have "\<dots> = of_int (m * 2 ^ k)" by simp
  finally have "rne (x / 2 powi w) = m * 2 ^ k" by (simp only: rne_int)
  then have "quant x = of_int (m * 2 ^ k) * 2 powi w" using False by (simp add: quant_def w_def)
  also have "\<dots> = of_int m * (2 powi w * 2 ^ k)" by simp
  also have "\<dots> = x" by (simp only: x pw)
  finally show ?thesis .
qed

lemma quant_error: "\<bar>quant x - x\<bar> \<le> 2 powi (ulp_exp x) / 2"
proof (cases "x = 0")
  case True
  then show ?thesis by (simp add: quant_def)
next
  case False
  let ?u = "(2::real) powi ulp_exp x"
  have u: "0 < ?u" by simp
  have "quant x - x = (of_int (rne (x / ?u)) - x / ?u) * ?u"
    using False u by (simp add: quant_def field_simps)
  then have "\<bar>quant x - x\<bar> = \<bar>of_int (rne (x / ?u)) - x / ?u\<bar> * ?u"
    using u by (simp add: abs_mult)
  also have "\<dots> \<le> (1/2) * ?u"
    using rne_error[of "x / ?u"] u by (intro mult_right_mono) simp_all
  finally show ?thesis by simp
qed

lemma quant_nonneg: "0 \<le> x \<Longrightarrow> 0 \<le> quant x"
proof -
  assume "0 \<le> x"
  then have "0 \<le> x / 2 powi ulp_exp x" by simp
  from rne_nonneg[OF this] show ?thesis by (simp add: quant_def)
qed

lemma rne_mono:
  assumes "a \<le> b"
  shows "rne a \<le> rne b"
proof (cases "\<lfloor>a\<rfloor> = \<lfloor>b\<rfloor>")
  case True
  then show ?thesis using assms by (auto simp add: rne_def Let_def)
next
  case False
  then have "\<lfloor>a\<rfloor> + 1 \<le> \<lfloor>b\<rfloor>" using floor_mono[OF assms] by linarith
  moreover have "rne a \<le> \<lfloor>a\<rfloor> + 1" by (auto simp add: rne_def Let_def)
  moreover have "\<lfloor>b\<rfloor> \<le> rne b" by (auto simp add: rne_def Let_def)
  ultimately show ?thesis by linarith
qed

lemma rne_neg: "rne (- y) = - rne y"
proof (cases "y = of_int \<lfloor>y\<rfloor>")
  case True
  then obtain m where "y = of_int m" by blast
  then have "rne y = m" "rne (- y) = - m"
    using rne_int[of m] rne_int[of "- m"] by simp_all
  then show ?thesis by simp
next
  case False
  define f where "f = \<lfloor>y\<rfloor>"
  have lo: "of_int f < y" using False f_def by (metis of_int_floor_le order_less_le)
  have hi: "y < of_int f + 1" unfolding f_def by linarith
  have fl: "\<lfloor>- y\<rfloor> = - f - 1"
    by (rule floor_unique) (use lo hi in simp_all)
  have "rne y = (if y - of_int f < 1/2 then f else if 1/2 < y - of_int f then f + 1
                 else if even f then f else f + 1)"
    by (simp add: rne_def Let_def f_def)
  moreover have "rne (- y) = (if - y - of_int (- f - 1) < 1/2 then - f - 1
                 else if 1/2 < - y - of_int (- f - 1) then - f
                 else if even (- f - 1) then - f - 1 else - f)"
    by (simp add: rne_def Let_def fl)
  ultimately show ?thesis by auto
qed

lemma expo_neg: "expo (- x) = expo x"
  by (simp add: expo_def)

lemma quant_neg: "quant (- x) = - quant x"
  by (simp add: quant_def ulp_exp_def expo_neg rne_neg)

lemma expo_mono:
  assumes "0 < x" "x \<le> y"
  shows "expo x \<le> expo y"
proof -
  have "log 2 \<bar>x\<bar> \<le> log 2 \<bar>y\<bar>" using assms by simp
  then show ?thesis unfolding expo_def by (rule floor_mono)
qed

lemma quant_pow: "- 149 \<le> k \<Longrightarrow> quant (2 powi k) = 2 powi k"
  by (rule quant_repr[where m=1 and e=k]) simp_all

lemma quant_mono_pos:
  assumes "0 < x" "x \<le> y"
  shows "quant x \<le> quant y"
proof (cases "ulp_exp x = ulp_exp y")
  case True
  have "x / 2 powi ulp_exp y \<le> y / 2 powi ulp_exp y"
    using assms(2) by (simp add: divide_right_mono)
  from rne_mono[OF this] have "real_of_int (rne (x / 2 powi ulp_exp y)) \<le> real_of_int (rne (y / 2 powi ulp_exp y))"
    by simp
  then have "real_of_int (rne (x / 2 powi ulp_exp y)) * 2 powi ulp_exp y
      \<le> real_of_int (rne (y / 2 powi ulp_exp y)) * 2 powi ulp_exp y"
    by (intro mult_right_mono) simp_all
  then show ?thesis using assms True by (simp add: quant_def)
next
  case False
  have le: "expo x \<le> expo y" by (rule expo_mono[OF assms])
  then have "ulp_exp x \<le> ulp_exp y" by (simp add: ulp_exp_def)
  with False have lt: "ulp_exp x < ulp_exp y" by simp
  then have uy: "ulp_exp y = expo y - 23" and ey: "expo x < expo y"
    using le by (auto simp add: ulp_exp_def max_def split: if_splits)
  have ypos: "0 < y" using assms by simp
  define B where "B = (2::real) powi expo y"
  have xB: "x \<le> B"
  proof -
    have "x < 2 powi (expo x + 1)" using expo_bounds[of x] assms(1) by simp
    also have "\<dots> \<le> 2 powi expo y" using ey by (intro power_int_increasing) simp_all
    finally show ?thesis by (simp add: B_def)
  qed
  have By: "B \<le> y" using expo_bounds[of y] ypos by (simp add: B_def)
  have ux: "ulp_exp x \<le> expo y" using lt uy by simp
  define k where "k = nat (expo y - ulp_exp x)"
  have Bk: "B = 2 ^ k * 2 powi ulp_exp x"
  proof -
    have "expo y = int k + ulp_exp x" using ux by (simp add: k_def)
    then have "B = 2 powi (int k + ulp_exp x)" by (simp add: B_def)
    then show ?thesis by (simp add: power_int_add)
  qed
  have "x / 2 powi ulp_exp x \<le> B / 2 powi ulp_exp x" using xB by (simp add: divide_right_mono)
  also have "\<dots> = of_int (2 ^ k)" by (simp add: Bk)
  finally have "rne (x / 2 powi ulp_exp x) \<le> rne (of_int (2 ^ k))" by (rule rne_mono)
  then have "real_of_int (rne (x / 2 powi ulp_exp x)) \<le> 2 ^ k" by (simp only: rne_int) simp
  then have "real_of_int (rne (x / 2 powi ulp_exp x)) * 2 powi ulp_exp x \<le> 2 ^ k * 2 powi ulp_exp x"
    by (intro mult_right_mono) simp_all
  then have qx: "quant x \<le> B" using assms(1) by (simp add: quant_def Bk)
  have B23: "B = 2 ^ 23 * 2 powi ulp_exp y"
  proof -
    have "expo y = 23 + ulp_exp y" using uy by simp
    then have "B = 2 powi (23 + ulp_exp y)" by (simp add: B_def)
    then show ?thesis by (simp add: power_int_add)
  qed
  have "B / 2 powi ulp_exp y \<le> y / 2 powi ulp_exp y" using By by (simp add: divide_right_mono)
  moreover have "B / 2 powi ulp_exp y = of_int (2 ^ 23)" by (simp add: B23)
  ultimately have "of_int (2 ^ 23) \<le> y / 2 powi ulp_exp y" by simp
  then have "rne (of_int (2 ^ 23)) \<le> rne (y / 2 powi ulp_exp y)" by (rule rne_mono)
  then have "2 ^ 23 \<le> real_of_int (rne (y / 2 powi ulp_exp y))" by (simp only: rne_int) simp
  then have "2 ^ 23 * 2 powi ulp_exp y \<le> real_of_int (rne (y / 2 powi ulp_exp y)) * 2 powi ulp_exp y"
    by (intro mult_right_mono) simp_all
  then have qy: "B \<le> quant y" using ypos by (simp add: quant_def B23)
  from qx qy show ?thesis by simp
qed

lemma quant_nonpos: "x \<le> 0 \<Longrightarrow> quant x \<le> 0"
  using quant_nonneg[of "- x"] by (simp add: quant_neg)

lemma quant_mono:
  assumes "x \<le> y"
  shows "quant x \<le> quant y"
proof -
  consider "0 < x" | "x \<le> 0" "0 \<le> y" | "y < 0" by linarith
  then show ?thesis
  proof cases
    case 1
    then show ?thesis using assms by (rule quant_mono_pos)
  next
    case 2
    then show ?thesis using quant_nonpos[of x] quant_nonneg[of y] by simp
  next
    case 3
    then have "0 < - y" "- y \<le> - x" using assms by simp_all
    from quant_mono_pos[OF this] show ?thesis by (simp add: quant_neg)
  qed
qed

lemma quant_0: "quant 0 = 0"
  by (simp add: quant_def)

lemma round32_0: "round32 0 = Finite 0"
  by (simp add: round32_def quant_0)

text \<open>A number of the format is left as it is.\<close>

lemma round32_repr:
  assumes x: "x = of_int m * 2 powi e" and m: "\<bar>m\<bar> < 2 ^ 24" and e: "- 149 \<le> e" "e \<le> 104"
  shows "round32 x = Finite x"
proof -
  have q: "quant x = x" using x m e(1) by (rule quant_repr)
  have "\<bar>x\<bar> = \<bar>of_int m\<bar> * 2 powi e" by (simp add: x abs_mult)
  also have "\<dots> < 2 ^ 24 * 2 powi e"
  proof -
    have "\<bar>real_of_int m\<bar> < 2 ^ 24" using m by (metis of_int_abs of_int_less_numeral_power_cancel_iff)
    then show ?thesis by (intro mult_strict_right_mono) simp_all
  qed
  also have "\<dots> \<le> 2 ^ 24 * 2 powi 104"
    using e(2) by (intro mult_left_mono power_int_increasing) simp_all
  also have "\<dots> = 2 ^ 128" by simp
  finally have "\<bar>x\<bar> < 2 ^ 128" .
  then show ?thesis by (auto simp add: round32_def q)
qed

lemma round32_int: "\<bar>m\<bar> < 2 ^ 24 \<Longrightarrow> round32 (of_int m) = Finite (of_int m)"
  by (rule round32_repr[where m=m and e=0]) simp_all

text \<open>The rounding of a positive number below \<open>2 ^ 127\<close>.\<close>

lemma round32_pos:
  assumes "0 \<le> x" "x \<le> 2 ^ 127"
  shows "round32 x = Finite (quant x)"
proof -
  have "quant x \<le> quant (2 powi 127)" using assms(2) by (intro quant_mono) simp
  also have "\<dots> = 2 powi 127" by (rule quant_pow) simp
  finally have "quant x \<le> 2 ^ 127" by simp
  moreover have "0 \<le> quant x" using assms(1) by (rule quant_nonneg)
  ultimately show ?thesis using assms(1) by (auto simp add: round32_def)
qed

lemma round32_at:
  assumes "2 powi e \<le> x" "x < 2 powi (e + 1)" "- 126 \<le> e" "e \<le> 126"
  shows "round32 x = Finite (of_int (rne (x / 2 powi (e - 23))) * 2 powi (e - 23))"
proof -
  have pos: "0 < x" using assms(1) two_powi_pos[of e] by linarith
  have "x < 2 powi (e + 1)" by fact
  also have "\<dots> \<le> 2 powi 127" using assms(4) by (intro power_int_increasing) simp_all
  finally have "x \<le> 2 ^ 127" by simp
  then have "round32 x = Finite (quant x)" using pos by (intro round32_pos) simp_all
  moreover have "quant x = of_int (rne (x / 2 powi (max (e - 23) (- 149)))) * 2 powi (max (e - 23) (- 149))"
    using assms(1,2) pos by (intro quant_at) simp_all
  moreover have "max (e - 23) (- 149) = e - 23" using assms(3) by simp
  ultimately show ?thesis by simp
qed

text \<open>The rounding of a positive number below the normal range.\<close>

lemma round32_subnormal:
  assumes "0 < x" "x < 2 powi (- 126)"
  shows "round32 x = Finite (of_int (rne (x * 2 ^ 149)) / 2 ^ 149)"
proof -
  have "expo x < - 126"
  proof (rule ccontr)
    assume "\<not> expo x < - 126"
    then have "(2::real) powi (- 126) \<le> 2 powi expo x" by (intro power_int_increasing) simp_all
    also have "\<dots> \<le> x" using expo_bounds[of x] assms(1) by simp
    finally show False using assms(2) by simp
  qed
  then have u: "ulp_exp x = - 149" by (simp add: ulp_exp_def)
  have "x \<le> 2 ^ 127"
  proof -
    have "x < 2 powi (- 126)" by fact
    also have "\<dots> \<le> 2 powi 127" by (intro power_int_increasing) simp_all
    finally show ?thesis by simp
  qed
  then have "round32 x = Finite (quant x)" using assms(1) by (intro round32_pos) simp_all
  moreover have "quant x = of_int (rne (x * 2 ^ 149)) / 2 ^ 149"
    using assms(1) by (simp add: quant_def u power_int_minus field_simps)
  ultimately show ?thesis by simp
qed

section \<open>The operations on finite operands\<close>

lemma f32_add_Finite: "f32_add (Finite a) (Finite b) = round32 (a + b)"
  by (simp add: f32_add_def signed_zero_def round32_0)

lemma f32_sub_Finite: "f32_sub (Finite a) (Finite b) = round32 (a - b)"
  by (simp add: f32_sub_def f32_add_def signed_zero_def round32_0)

lemma f32_mul_Finite:
  "0 \<le> a \<Longrightarrow> 0 \<le> b \<Longrightarrow> f32_mul (Finite a) (Finite b) = round32 (a * b)"
  by (auto simp add: f32_mul_def signed_zero_def round32_0)

lemma f32_div_Finite:
  "0 \<le> a \<Longrightarrow> 0 < b \<Longrightarrow> f32_div (Finite a) (Finite b) = round32 (a / b)"
  by (auto simp add: f32_div_def signed_zero_def round32_0)

lemma f32_gt_Finite: "f32_gt (Finite a) (Finite b) \<longleftrightarrow> b < a"
  by (simp add: f32_gt_def)

lemma f32_lt_Finite: "f32_lt (Finite a) (Finite b) \<longleftrightarrow> a < b"
  by (simp add: f32_lt_def f32_gt_def)

lemma f32_ge_Finite: "f32_ge (Finite a) (Finite b) \<longleftrightarrow> b \<le> a"
  by (auto simp add: f32_ge_def f32_gt_def)

lemma f32_of_int_small: "\<bar>i\<bar> < 2 ^ 24 \<Longrightarrow> f32_of_int i = Finite (of_int i)"
  by (simp add: f32_of_int_def round32_int)

lemma round32_pow: "- 149 \<le> k \<Longrightarrow> k \<le> 104 \<Longrightarrow> round32 (2 powi k) = Finite (2 powi k)"
  by (rule round32_repr[where m=1 and e=k]) simp_all

lemma round32_numeral:
  "numeral n < (2::real) ^ 24 \<Longrightarrow> round32 (numeral n) = Finite (numeral n)"
proof -
  assume a: "numeral n < (2::real) ^ 24"
  have "\<bar>numeral n :: int\<bar> < 2 ^ 24"
  proof -
    have "real_of_int (numeral n) < real_of_int (2 ^ 24)" using a by simp
    then have "(numeral n :: int) < 2 ^ 24" by (simp only: of_int_less_iff)
    then show ?thesis by simp
  qed
  from round32_int[OF this] show ?thesis by simp
qed

lemma round32_1: "round32 1 = Finite 1"
  using round32_int[of 1] by simp

lemma fold_index_list:
  "n \<le> length xs \<Longrightarrow>
     fold (\<lambda>i a. f32_add a (xs ! i)) [0..<n] s = fold (\<lambda>x a. f32_add a x) (take n xs) s"
proof (induction n arbitrary: s)
  case 0 then show ?case by simp
next
  case (Suc n)
  then show ?case by (simp add: take_Suc_conv_app_nth)
qed

lemmas f32_eval = f32_add_Finite f32_sub_Finite f32_gt_Finite f32_lt_Finite f32_ge_Finite
  round32_0 round32_1 round32_numeral


section \<open>Properties of the beat detector\<close>

lemma avg_energy_list:
  "length h = 16 \<Longrightarrow> avg_energy h = f32_div (fold (\<lambda>x a. f32_add a x) h (Finite 0)) (Finite 16)"
  by (simp add: avg_energy_def fold_index_list)

lemma beat_fire_iff:
  "snd (beat_process_body d f) \<longleftrightarrow>
     f32_gt (energy f)
       (f32_mul (round32 (13/10)) (avg_energy ((energy_history d)[nat (history_index d) := energy f])))
     \<and> timestamp f - last_beat_time d > 200000"
  by (simp add: beat_process_body_def Let_def)

lemma beat_history:
  "energy_history (fst (beat_process_body d f)) = (energy_history d)[nat (history_index d) := energy f]"
  by (simp add: beat_process_body_def Let_def)

lemma beat_last_time:
  "last_beat_time (fst (beat_process_body d f)) =
     (if snd (beat_process_body d f) then timestamp f else last_beat_time d)"
  by (simp add: beat_process_body_def Let_def)

lemma process_Some:
  "audio_beat_detector_process (Some d) (Some f) (Some b) =
     (ESP_OK, Some (fst (beat_process_body d f)), Some (snd (beat_process_body d f)))"
  by (simp add: audio_beat_detector_process_def split: prod.split)

lemma run_Cons:
  "run_detector d (f # fs) =
     (fst (run_detector (fst (beat_process_body d f)) fs),
      snd (beat_process_body d f) # snd (run_detector (fst (beat_process_body d f)) fs))"
  by (simp add: process_Some split: prod.split)

lemma run_length: "length (snd (run_detector d fs)) = length fs"
  by (induction fs arbitrary: d) (simp_all add: run_Cons del: run_detector.simps(2))

lemma last_mono: "last_beat_time d \<le> last_beat_time (fst (beat_process_body d f))"
  by (simp add: beat_last_time beat_fire_iff)

lemma run_fire_after:
  "i < length fs \<Longrightarrow> snd (run_detector d fs) ! i \<Longrightarrow> timestamp (fs ! i) > last_beat_time d + 200000"
proof (induction fs arbitrary: d i)
  case Nil then show ?case by simp
next
  case (Cons f fs)
  show ?case
  proof (cases i)
    case 0
    with Cons.prems show ?thesis by (simp add: run_Cons beat_fire_iff del: run_detector.simps(2))
  next
    case (Suc k)
    with Cons.prems have "timestamp (fs ! k) > last_beat_time (fst (beat_process_body d f)) + 200000"
      using Cons.IH[of k "fst (beat_process_body d f)"] by (simp add: run_Cons del: run_detector.simps(2))
    with last_mono[of d f] Suc show ?thesis by simp
  qed
qed

lemma run_fire_gap:
  "i < j \<Longrightarrow> j < length fs \<Longrightarrow> snd (run_detector d fs) ! i \<Longrightarrow> snd (run_detector d fs) ! j
     \<Longrightarrow> timestamp (fs ! j) > timestamp (fs ! i) + 200000"
proof (induction fs arbitrary: d i j)
  case Nil then show ?case by simp
next
  case (Cons f fs)
  obtain k where j: "j = Suc k" using Cons.prems(1) by (cases j) auto
  let ?d = "fst (beat_process_body d f)"
  show ?case
  proof (cases i)
    case 0
    with Cons.prems have fire: "snd (beat_process_body d f)" by (simp add: run_Cons del: run_detector.simps(2))
    then have "last_beat_time ?d = timestamp f" by (simp add: beat_last_time)
    moreover have "timestamp (fs ! k) > last_beat_time ?d + 200000"
      using Cons.prems j run_fire_after[of k fs ?d] by (simp add: run_Cons del: run_detector.simps(2))
    ultimately show ?thesis using 0 j by simp
  next
    case (Suc m)
    with Cons.prems j show ?thesis
      using Cons.IH[of m k ?d] by (simp add: run_Cons del: run_detector.simps(2))
  qed
qed

lemma c_mod_nonneg: "0 \<le> a \<Longrightarrow> 0 < b \<Longrightarrow> c_mod a b = a mod b"
  by (cases "a = 0") (simp_all add: c_mod_def)

lemma beat_index:
  "history_index (fst (beat_process_body d f)) = c_mod (history_index d + 1) 16"
  by (simp add: beat_process_body_def Let_def)

lemma beat_confidence:
  "confidence (fst (beat_process_body d f)) =
     (if snd (beat_process_body d f)
      then f32_div
             (f32_sub (energy f) (avg_energy ((energy_history d)[nat (history_index d) := energy f])))
             (avg_energy ((energy_history d)[nat (history_index d) := energy f]))
      else confidence d)"
  by (simp add: beat_process_body_def Let_def)

lemma beat_count_step:
  "beat_count (fst (beat_process_body d f)) =
     (if snd (beat_process_body d f) then beat_count d + 1 else beat_count d)"
  by (simp add: beat_process_body_def Let_def)

lemma beat_tempo:
  "tempo (fst (beat_process_body d f)) =
     (if snd (beat_process_body d f) \<and> 0 < beat_count d then
        f32_div (Finite 60)
          (f32_div
             (sum_intervals
                ((beat_intervals d)[nat (c_mod (beat_count d) 8) :=
                    f32_div (f32_of_int (timestamp f - last_beat_time d)) (Finite 1000000)])
                (if beat_count d < 8 then beat_count d else 8))
             (f32_of_int (if beat_count d < 8 then beat_count d else 8)))
      else tempo d)"
  by (simp add: beat_process_body_def Let_def)

lemma beat_intervals_step:
  "beat_intervals (fst (beat_process_body d f)) =
     (if snd (beat_process_body d f) \<and> 0 < beat_count d then
        (beat_intervals d)[nat (c_mod (beat_count d) 8) :=
           f32_div (f32_of_int (timestamp f - last_beat_time d)) (Finite 1000000)]
      else beat_intervals d)"
  by (simp add: beat_process_body_def Let_def)

lemma quiet_run:
  "\<forall>b \<in> set (snd (run_detector d fs)). \<not> b \<Longrightarrow>
     tempo (fst (run_detector d fs)) = tempo d \<and> beat_count (fst (run_detector d fs)) = beat_count d"
proof (induction fs arbitrary: d)
  case Nil then show ?case by simp
next
  case (Cons f fs)
  let ?d = "fst (beat_process_body d f)"
  from Cons.prems have nf: "\<not> snd (beat_process_body d f)"
    and rest: "\<forall>b \<in> set (snd (run_detector ?d fs)). \<not> b"
    by (auto simp add: run_Cons simp del: run_detector.simps(2))
  from nf have "tempo ?d = tempo d \<and> beat_count ?d = beat_count d"
    by (simp add: beat_tempo beat_count_step)
  with Cons.IH[OF rest] show ?case
    by (simp add: run_Cons del: run_detector.simps(2))
qed

text \<open>The literal \<^verbatim>\<open>1.3f\<close>.\<close>

lemma literal_1_3f: "round32 (13/10) = Finite (5452595 / 4194304)"
  by (subst round32_at[where e=0]) (simp_all add: rne_def power_int_minus)

text \<open>A first frame of energy 9555 at 0.3 s, then a frame of energy 845 at 0.6 s.\<close>

lemma spike_avg_1:
  "avg_energy ((energy_history init_detector)[nat (history_index init_detector) := Finite 9555])
     = Finite (9555 / 16)"
proof -
  have "round32 (9555 / 16) = Finite (9555 / 16)"
    by (rule round32_repr[where m=9555 and e="-4"]) (simp_all add: power_int_minus)
  then show ?thesis
    by (simp add: init_detector_def zeroed_detector_def avg_energy_list f32_eval f32_div_Finite)
qed

lemma spike_fire_1: "snd (beat_process_body init_detector (frame (Finite 9555) 300000))"
proof -
  have "round32 (5452595 / 4194304 * (9555 / 16)) = Finite (24843 / 32)"
    by (subst round32_at[where e=9]) (simp_all add: rne_def power_int_minus)
  then have "f32_mul (round32 (13/10)) (Finite (9555 / 16)) = Finite (24843 / 32)"
    by (simp add: literal_1_3f f32_mul_Finite)
  then show ?thesis
    using spike_avg_1
    by (simp add: beat_fire_iff frame_def f32_eval) (simp add: init_detector_def zeroed_detector_def)
qed

lemma spike_state_1:
  "energy_history (fst (beat_process_body init_detector (frame (Finite 9555) 300000)))
     = [Finite 9555, Finite 0, Finite 0, Finite 0, Finite 0, Finite 0, Finite 0, Finite 0,
        Finite 0, Finite 0, Finite 0, Finite 0, Finite 0, Finite 0, Finite 0, Finite 0]
   \<and> history_index (fst (beat_process_body init_detector (frame (Finite 9555) 300000))) = 1
   \<and> last_beat_time (fst (beat_process_body init_detector (frame (Finite 9555) 300000))) = 300000"
  using spike_fire_1
  by (simp add: beat_history beat_index beat_last_time c_mod_def)
     (simp add: init_detector_def zeroed_detector_def frame_def)

lemma spike_avg_2:
  "avg_energy ((energy_history (fst (beat_process_body init_detector (frame (Finite 9555) 300000))))
       [nat (history_index (fst (beat_process_body init_detector (frame (Finite 9555) 300000)))) := Finite 845])
     = Finite 650"
  by (simp add: spike_state_1 avg_energy_list f32_eval f32_div_Finite)

lemma spike_fire_2:
  "snd (beat_process_body (fst (beat_process_body init_detector (frame (Finite 9555) 300000)))
         (frame (Finite 845) 600000))"
proof -
  have "round32 (5452595 / 4194304 * 650) = Finite (13844479 / 16384)"
    by (subst round32_at[where e=9]) (simp_all add: rne_def power_int_minus)
  then have "f32_mul (round32 (13/10)) (Finite 650) = Finite (13844479 / 16384)"
    by (simp add: literal_1_3f f32_mul_Finite)
  moreover have "energy (frame (Finite 845) 600000) = Finite 845"
    "timestamp (frame (Finite 845) 600000) = 600000"
    by (simp_all add: frame_def)
  ultimately show ?thesis
    using spike_avg_2 spike_state_1 by (simp add: beat_fire_iff f32_eval)
qed

lemma spike_run:
  "snd (run_detector init_detector [frame (Finite 9555) 300000, frame (Finite 845) 600000])
     = [True, True]"
  using spike_fire_1 spike_fire_2 by (simp add: run_Cons del: run_detector.simps(2))

lemma spike_history:
  "energy_history (fst (run_detector init_detector [frame (Finite 9555) 300000, frame (Finite 845) 600000]))
     = [Finite 9555, Finite 845, Finite 0, Finite 0, Finite 0, Finite 0, Finite 0, Finite 0,
        Finite 0, Finite 0, Finite 0, Finite 0, Finite 0, Finite 0, Finite 0, Finite 0]"
  by (simp add: run_Cons beat_history spike_state_1 del: run_detector.simps(2))
     (simp add: frame_def init_detector_def zeroed_detector_def)

lemma upt16: "[0..<16] = [0, 1, 2, 3, 4, 5, 6, 7, 8, 9, 10, 11, 12, 13, 14, 15]"
  by (simp add: upt_rec)

lemma spike_mean:
  "ring_mean [Finite 9555, Finite 845, Finite 0, Finite 0, Finite 0, Finite 0, Finite 0, Finite 0,
        Finite 0, Finite 0, Finite 0, Finite 0, Finite 0, Finite 0, Finite 0, Finite 0] = 650"
proof -
  have "(\<Sum>i = 0..<16. f32_val (xs ! i)) = (\<Sum>i\<leftarrow>[0..<16]. f32_val (xs ! i))" for xs
    by (simp add: sum_list_distinct_conv_sum_set)
  then show ?thesis by (simp add: ring_mean_def upt16 del: upt_Suc)
qed

text \<open>
  Claim C1, as stated, fails on the code.  From the initial state, a frame of energy 9555
  at 0.3 s and a frame of energy 845 at 0.6 s both report a beat.  At the second call the
  ring holds 9555 and 845, its mean is 650, and 1.3 times 650 is 845: the energy does not
  exceed it.  The code compares with the float product of \<^verbatim>\<open>1.3f\<close>, which is below 1.3,
  and 650, which rounds to 844.99994.
\<close>

theorem beat_threshold_counterexample:
  "snd (run_detector init_detector [frame (Finite 9555) 300000, frame (Finite 845) 600000])
     = [True, True]
   \<and> energy_history
        (fst (run_detector init_detector [frame (Finite 9555) 300000, frame (Finite 845) 600000]))
     = [Finite 9555, Finite 845, Finite 0, Finite 0, Finite 0, Finite 0, Finite 0, Finite 0,
        Finite 0, Finite 0, Finite 0, Finite 0, Finite 0, Finite 0, Finite 0, Finite 0]
   \<and> 13/10 * ring_mean
        (energy_history
          (fst (run_detector init_detector [frame (Finite 9555) 300000, frame (Finite 845) 600000])))
     = f32_val (energy (frame (Finite 845) 600000))"
  by (simp add: spike_run spike_history spike_mean del: run_detector.simps(2))
     (simp add: frame_def)

text \<open>
  Claim C1, amended.  A call of \<^verbatim>\<open>audio_beat_detector_process\<close> sets \<^verbatim>\<open>beat_detected\<close>
  only if the frame's energy is greater, as a float, than the float product of \<^verbatim>\<open>1.3f\<close>
  (the number 5452595 / 4194304) and the float average of the 16-slot energy history, taken
  after the energy has been written into the ring, and the frame's timestamp exceeds
  \<^verbatim>\<open>last_beat_time\<close> by more than 200000 microseconds.  Consequently, in any sequence of
  calls on one detector, two calls whose timestamps differ by less than 200000 microseconds
  do not both report a beat.
\<close>

theorem beat_refractory_guard:
  "(audio_beat_detector_process (Some d) (Some f) (Some b) = (ret, Some d', Some True) \<longrightarrow>
       energy_history d' = (energy_history d)[nat (history_index d) := energy f]
     \<and> f32_gt (energy f) (f32_mul (round32 (13/10)) (avg_energy (energy_history d')))
     \<and> timestamp f - last_beat_time d > 200000)
   \<and> round32 (13/10) = Finite (5452595 / 4194304)
   \<and> (\<forall>i j. i < length fs \<and> j < length fs \<and> i \<noteq> j
          \<and> \<bar>timestamp (fs ! i) - timestamp (fs ! j)\<bar> < 200000
        \<longrightarrow> \<not> (snd (run_detector d fs) ! i \<and> snd (run_detector d fs) ! j))"
proof (intro conjI impI allI)
  assume a: "audio_beat_detector_process (Some d) (Some f) (Some b) = (ret, Some d', Some True)"
  then have d': "d' = fst (beat_process_body d f)" and fire: "snd (beat_process_body d f)"
    by (simp_all add: process_Some)
  show h: "energy_history d' = (energy_history d)[nat (history_index d) := energy f]"
    by (simp add: d' beat_history)
  show "f32_gt (energy f) (f32_mul (round32 (13/10)) (avg_energy (energy_history d')))"
    using fire by (simp add: h beat_fire_iff)
  show "timestamp f - last_beat_time d > 200000"
    using fire by (simp add: beat_fire_iff)
next
  show "round32 (13/10) = Finite (5452595 / 4194304)" by (rule literal_1_3f)
next
  fix i j
  assume a: "i < length fs \<and> j < length fs \<and> i \<noteq> j
          \<and> \<bar>timestamp (fs ! i) - timestamp (fs ! j)\<bar> < 200000"
  show "\<not> (snd (run_detector d fs) ! i \<and> snd (run_detector d fs) ! j)"
  proof
    assume b: "snd (run_detector d fs) ! i \<and> snd (run_detector d fs) ! j"
    consider "i < j" | "j < i" using a by linarith
    then show False
    proof cases
      case 1
      with a b run_fire_gap[of i j fs d] show False by simp
    next
      case 2
      with a b run_fire_gap[of j i fs d] show False by simp
    qed
  qed
qed

lemma frames_avg_0:
  "avg_energy ((energy_history init_detector)[nat (history_index init_detector) := Finite 1])
     = Finite (1 / 16)"
proof -
  have "round32 (1 / 16) = Finite (1 / 16)"
    by (rule round32_repr[where m=1 and e="-4"]) (simp_all add: power_int_minus)
  then show ?thesis
    by (simp add: init_detector_def zeroed_detector_def avg_energy_list f32_eval f32_div_Finite)
qed

lemma frames_fire_0: "snd (beat_process_body init_detector (frame (Finite 1) 300000))"
proof -
  have "round32 (5452595 / 67108864) = Finite (5452595 / 67108864)"
    by (rule round32_repr[where m=5452595 and e="-26"]) (simp_all add: power_int_minus)
  then have "f32_mul (round32 (13/10)) (Finite (1 / 16)) = Finite (5452595 / 67108864)"
    by (simp add: literal_1_3f f32_mul_Finite)
  then show ?thesis
    using frames_avg_0
    by (simp add: beat_fire_iff frame_def f32_eval) (simp add: init_detector_def zeroed_detector_def)
qed

lemma init_fire:
  "audio_beat_detector_process (Some init_detector) (Some (frame (Finite 1) 300000)) (Some False)
     = (ESP_OK, Some (fst (beat_process_body init_detector (frame (Finite 1) 300000))), Some True)"
  using frames_fire_0 by (simp add: process_Some)

theorem beat_refractory_guard_witness:
  "audio_beat_detector_process (Some init_detector) (Some (frame (Finite 1) 300000)) (Some False)
     = (ESP_OK, Some (fst (beat_process_body init_detector (frame (Finite 1) 300000))), Some True)
   \<and> f32_gt (energy (frame (Finite 1) 300000))
        (f32_mul (round32 (13/10))
          (avg_energy (energy_history (fst (beat_process_body init_detector (frame (Finite 1) 300000))))))
   \<and> timestamp (frame (Finite 1) 300000) - last_beat_time init_detector > 200000
   \<and> \<bar>timestamp ([frame (Finite 1) 300000, frame (Finite 2) 400000] ! 0)
        - timestamp ([frame (Finite 1) 300000, frame (Finite 2) 400000] ! 1)\<bar> < 200000
   \<and> snd (run_detector init_detector [frame (Finite 1) 300000, frame (Finite 2) 400000]) ! 0
   \<and> \<not> snd (run_detector init_detector [frame (Finite 1) 300000, frame (Finite 2) 400000]) ! 1"
proof -
  have t: "\<bar>timestamp ([frame (Finite 1) 300000, frame (Finite 2) 400000] ! 0)
        - timestamp ([frame (Finite 1) 300000, frame (Finite 2) 400000] ! 1)\<bar> < 200000"
    by (simp add: frame_def)
  have r0: "snd (run_detector init_detector [frame (Finite 1) 300000, frame (Finite 2) 400000]) ! 0"
    using init_fire by (simp add: run_Cons process_Some del: run_detector.simps(2))
  note inst = beat_refractory_guard[of init_detector "frame (Finite 1) 300000" False ESP_OK
        "fst (beat_process_body init_detector (frame (Finite 1) 300000))"
        "[frame (Finite 1) 300000, frame (Finite 2) 400000]"]
  from inst init_fire
  have p1: "f32_gt (energy (frame (Finite 1) 300000))
        (f32_mul (round32 (13/10))
          (avg_energy (energy_history (fst (beat_process_body init_detector (frame (Finite 1) 300000))))))
     \<and> timestamp (frame (Finite 1) 300000) - last_beat_time init_detector > 200000"
    by blast
  from inst have "0 < length [frame (Finite 1) 300000, frame (Finite 2) 400000]
       \<and> 1 < length [frame (Finite 1) 300000, frame (Finite 2) 400000]
       \<and> (0::nat) \<noteq> 1
       \<and> \<bar>timestamp ([frame (Finite 1) 300000, frame (Finite 2) 400000] ! 0)
           - timestamp ([frame (Finite 1) 300000, frame (Finite 2) 400000] ! 1)\<bar> < 200000
     \<longrightarrow> \<not> (snd (run_detector init_detector [frame (Finite 1) 300000, frame (Finite 2) 400000]) ! 0
           \<and> snd (run_detector init_detector [frame (Finite 1) 300000, frame (Finite 2) 400000]) ! 1)"
    by blast
  with t r0 have p2: "\<not> snd (run_detector init_detector [frame (Finite 1) 300000, frame (Finite 2) 400000]) ! 1"
    by simp
  from init_fire p1 t r0 p2 show ?thesis by blast
qed

lemma underflow_fire:
  assumes x: "0 < x" and r1: "round32 x = Finite x" and r2: "round32 (x / 16) = Finite 0"
  shows "snd (beat_process_body init_detector (frame (Finite x) 300000))
   \<and> avg_energy (energy_history (fst (beat_process_body init_detector (frame (Finite x) 300000))))
       = Finite 0
   \<and> confidence (fst (beat_process_body init_detector (frame (Finite x) 300000))) = PlusInf"
proof -
  let ?h = "(energy_history init_detector)[nat (history_index init_detector) := Finite x]"
  have avg: "avg_energy ?h = Finite 0"
    using x r1 r2
    by (simp add: init_detector_def zeroed_detector_def avg_energy_list f32_eval f32_div_Finite)
  have thr: "f32_mul (round32 (13/10)) (Finite 0) = Finite 0"
    by (simp add: literal_1_3f f32_mul_Finite f32_eval)
  have e: "energy (frame (Finite x) 300000) = Finite x" "timestamp (frame (Finite x) 300000) = 300000"
    by (simp_all add: frame_def)
  have l: "last_beat_time init_detector = 0" by (simp add: init_detector_def zeroed_detector_def)
  have fire: "snd (beat_process_body init_detector (frame (Finite x) 300000))"
    using x by (simp add: beat_fire_iff e avg thr l f32_eval)
  have "f32_div (f32_sub (Finite x) (Finite 0)) (Finite 0) = PlusInf"
    using r1 x by (simp add: f32_sub_Finite) (simp add: f32_div_def signed_inf_def)
  then have conf: "confidence (fst (beat_process_body init_detector (frame (Finite x) 300000))) = PlusInf"
    using fire by (simp add: beat_confidence e avg)
  from fire avg conf show ?thesis by (simp add: beat_history e)
qed

text \<open>
  Claim C6 does not hold of the code.  The division \<^verbatim>\<open>(energy - avg) / avg\<close> of line 433
  has no guard.  From the initial state, a frame whose energy is the smallest positive
  float, \<open>1 / 2 ^ 149\<close>, gives a ring sum of that value; the quotient by 16 is below half
  the smallest positive float and rounds to zero.  The threshold \<^verbatim>\<open>1.3f * 0\<close> is zero, the
  energy exceeds it, the beat fires, and the confidence is the positive infinity.
\<close>

theorem beat_confidence_unguarded:
  "snd (beat_process_body init_detector (frame (Finite (1 / 2 ^ 149)) 300000))
   \<and> avg_energy (energy_history (fst (beat_process_body init_detector (frame (Finite (1 / 2 ^ 149)) 300000))))
       = Finite 0
   \<and> confidence (fst (beat_process_body init_detector (frame (Finite (1 / 2 ^ 149)) 300000)))
       = PlusInf"
proof -
  have p: "(2::real) powi (- 149) = 1 / 2 ^ 149"
    by (simp add: power_int_minus inverse_eq_divide)
  have r1: "round32 (1 / 2 ^ 149) = Finite (1 / 2 ^ 149)"
    using round32_pow[of "- 149"] by (simp add: p)
  have "round32 (1 / 2 ^ 153) = Finite 0"
    by (subst round32_subnormal) (simp_all add: rne_def power_int_minus)
  then have r2: "round32 (1 / 2 ^ 149 / 16) = Finite 0" by simp
  have "(0::real) < 1 / 2 ^ 149" by simp
  from underflow_fire[OF this r1 r2] show ?thesis .
qed

lemma frames_state_1:
  "energy_history (fst (beat_process_body init_detector (frame (Finite 1) 300000)))
     = [Finite 1, Finite 0, Finite 0, Finite 0, Finite 0, Finite 0, Finite 0, Finite 0,
        Finite 0, Finite 0, Finite 0, Finite 0, Finite 0, Finite 0, Finite 0, Finite 0]
   \<and> history_index (fst (beat_process_body init_detector (frame (Finite 1) 300000))) = 1
   \<and> last_beat_time (fst (beat_process_body init_detector (frame (Finite 1) 300000))) = 300000
   \<and> beat_count (fst (beat_process_body init_detector (frame (Finite 1) 300000))) = 1"
  using frames_fire_0
  by (simp add: beat_history beat_index beat_last_time beat_count_step c_mod_def)
     (simp add: init_detector_def zeroed_detector_def frame_def)

lemma frames_fire_1:
  "snd (beat_process_body (fst (beat_process_body init_detector (frame (Finite 1) 300000)))
         (frame (Finite 5) 600000))"
proof -
  have r: "round32 (3 / 8) = Finite (3 / 8)"
    by (rule round32_repr[where m=3 and e="-3"]) (simp_all add: power_int_minus)
  have "round32 (16357785 / 33554432) = Finite (16357785 / 33554432)"
    by (rule round32_repr[where m=16357785 and e="-25"]) (simp_all add: power_int_minus)
  then have "f32_mul (round32 (13/10)) (Finite (3 / 8)) = Finite (16357785 / 33554432)"
    by (simp add: literal_1_3f f32_mul_Finite)
  moreover have "energy (frame (Finite 5) 600000) = Finite 5"
    "timestamp (frame (Finite 5) 600000) = 600000"
    by (simp_all add: frame_def)
  ultimately show ?thesis
    using r by (simp add: beat_fire_iff frames_state_1 avg_energy_list f32_eval f32_div_Finite)
qed

lemma frames_intervals_1:
  "beat_intervals (fst (beat_process_body init_detector (frame (Finite 1) 300000)))
     = [Finite 0, Finite 0, Finite 0, Finite 0, Finite 0, Finite 0, Finite 0, Finite 0]"
  by (simp add: beat_intervals_step) (simp add: init_detector_def zeroed_detector_def)

lemma frames_tempo_2:
  "tempo (fst (beat_process_body (fst (beat_process_body init_detector (frame (Finite 1) 300000)))
        (frame (Finite 5) 600000))) = PlusInf"
proof -
  have "f32_div (Finite 60) (Finite 0) = PlusInf" by (simp add: f32_div_def signed_inf_def)
  then show ?thesis
    using frames_fire_1
    by (simp add: beat_tempo frames_state_1 frames_intervals_1 sum_intervals_def c_mod_def
          f32_of_int_def f32_eval f32_div_Finite)
qed

text \<open>
  Claim C10.  \<^verbatim>\<open>audio_beat_detector_init\<close> leaves tempo 120, beat count 0, confidence 0 and
  all ring slots zero.  The first detected beat sets \<^verbatim>\<open>last_beat_time\<close>, the beat count
  and the confidence and leaves the tempo at 120; the tempo changes only in a call that
  fires with a positive beat count, where it is recomputed from the interval ring.
\<close>

theorem beat_init_first_beat:
  "audio_beat_detector_init (Some d0) = (ESP_OK, Some init_detector)
   \<and> tempo init_detector = Finite 120 \<and> beat_count init_detector = 0
   \<and> confidence init_detector = Finite 0
   \<and> energy_history init_detector = replicate 16 (Finite 0)
   \<and> beat_intervals init_detector = replicate 8 (Finite 0)
   \<and> ((\<forall>b \<in> set (snd (run_detector init_detector fs)). \<not> b)
        \<and> snd (beat_process_body (fst (run_detector init_detector fs)) f) \<longrightarrow>
          tempo (fst (beat_process_body (fst (run_detector init_detector fs)) f)) = Finite 120
        \<and> beat_count (fst (beat_process_body (fst (run_detector init_detector fs)) f)) = 1
        \<and> last_beat_time (fst (beat_process_body (fst (run_detector init_detector fs)) f)) = timestamp f
        \<and> confidence (fst (beat_process_body (fst (run_detector init_detector fs)) f))
            = f32_div
                (f32_sub (energy f)
                   (avg_energy (energy_history (fst (beat_process_body (fst (run_detector init_detector fs)) f)))))
                (avg_energy (energy_history (fst (beat_process_body (fst (run_detector init_detector fs)) f)))))
   \<and> (tempo (fst (beat_process_body d f)) \<noteq> tempo d \<longrightarrow>
        snd (beat_process_body d f) \<and> 0 < beat_count d)
   \<and> (snd (beat_process_body d f) \<and> 0 < beat_count d \<longrightarrow>
        tempo (fst (beat_process_body d f)) =
          f32_div (Finite 60)
            (f32_div
               (sum_intervals
                  ((beat_intervals d)[nat (c_mod (beat_count d) 8) :=
                      f32_div (f32_of_int (timestamp f - last_beat_time d)) (Finite 1000000)])
                  (min (beat_count d) 8))
               (f32_of_int (min (beat_count d) 8))))"
proof (intro conjI impI)
  show "audio_beat_detector_init (Some d0) = (ESP_OK, Some init_detector)"
    by (simp add: audio_beat_detector_init_def init_detector_def)
  show "tempo init_detector = Finite 120" "beat_count init_detector = 0"
    "confidence init_detector = Finite 0"
    by (simp_all add: init_detector_def zeroed_detector_def)
  show "energy_history init_detector = replicate 16 (Finite 0)"
    by (simp add: init_detector_def zeroed_detector_def eval_nat_numeral)
  show "beat_intervals init_detector = replicate 8 (Finite 0)"
    by (simp add: init_detector_def zeroed_detector_def eval_nat_numeral)
next
  let ?d = "fst (run_detector init_detector fs)"
  assume a: "(\<forall>b \<in> set (snd (run_detector init_detector fs)). \<not> b) \<and> snd (beat_process_body ?d f)"
  then have "tempo ?d = tempo init_detector \<and> beat_count ?d = beat_count init_detector"
    using quiet_run[of init_detector fs] by blast
  then have q: "tempo ?d = Finite 120 \<and> beat_count ?d = 0"
    by (simp add: init_detector_def zeroed_detector_def)
  from a q show "tempo (fst (beat_process_body ?d f)) = Finite 120" by (simp add: beat_tempo)
  from a q show "beat_count (fst (beat_process_body ?d f)) = 1" by (simp add: beat_count_step)
  from a show "last_beat_time (fst (beat_process_body ?d f)) = timestamp f" by (simp add: beat_last_time)
  from a show "confidence (fst (beat_process_body ?d f))
            = f32_div
                (f32_sub (energy f) (avg_energy (energy_history (fst (beat_process_body ?d f)))))
                (avg_energy (energy_history (fst (beat_process_body ?d f))))"
    by (simp add: beat_confidence beat_history)
next
  assume "tempo (fst (beat_process_body d f)) \<noteq> tempo d"
  then show "snd (beat_process_body d f)" "0 < beat_count d"
    by (simp_all add: beat_tempo split: if_splits)
next
  assume "snd (beat_process_body d f) \<and> 0 < beat_count d"
  then show "tempo (fst (beat_process_body d f)) =
          f32_div (Finite 60)
            (f32_div
               (sum_intervals
                  ((beat_intervals d)[nat (c_mod (beat_count d) 8) :=
                      f32_div (f32_of_int (timestamp f - last_beat_time d)) (Finite 1000000)])
                  (min (beat_count d) 8))
               (f32_of_int (min (beat_count d) 8)))"
    by (simp add: beat_tempo min_def)
qed

theorem beat_init_first_beat_witness:
  "snd (run_detector init_detector []) = []
   \<and> snd (beat_process_body (fst (run_detector init_detector [])) (frame (Finite 1) 300000))
   \<and> tempo (fst (beat_process_body (fst (run_detector init_detector [])) (frame (Finite 1) 300000))) = Finite 120
   \<and> beat_count (fst (beat_process_body (fst (run_detector init_detector [])) (frame (Finite 1) 300000))) = 1
   \<and> last_beat_time (fst (beat_process_body (fst (run_detector init_detector [])) (frame (Finite 1) 300000)))
        = timestamp (frame (Finite 1) 300000)
   \<and> tempo (fst (beat_process_body (fst (beat_process_body init_detector (frame (Finite 1) 300000))) (frame (Finite 5) 600000)))
        \<noteq> tempo (fst (beat_process_body init_detector (frame (Finite 1) 300000)))
   \<and> snd (beat_process_body (fst (beat_process_body init_detector (frame (Finite 1) 300000))) (frame (Finite 5) 600000))
   \<and> 0 < beat_count (fst (beat_process_body init_detector (frame (Finite 1) 300000)))"
proof -
  have h1: "(\<forall>b \<in> set (snd (run_detector init_detector [])). \<not> b)
     \<and> snd (beat_process_body (fst (run_detector init_detector [])) (frame (Finite 1) 300000))"
    using frames_fire_0 by simp
  have t1: "tempo (fst (beat_process_body init_detector (frame (Finite 1) 300000))) = Finite 120"
    by (simp add: beat_tempo init_detector_def zeroed_detector_def)
  have h2: "tempo (fst (beat_process_body (fst (beat_process_body init_detector (frame (Finite 1) 300000))) (frame (Finite 5) 600000)))
        \<noteq> tempo (fst (beat_process_body init_detector (frame (Finite 1) 300000)))"
    by (simp add: frames_tempo_2 t1)
  note a = beat_init_first_beat[of init_detector "[]" "frame (Finite 1) 300000"
      "fst (beat_process_body init_detector (frame (Finite 1) 300000))"]
  note b = beat_init_first_beat[of init_detector "[]" "frame (Finite 5) 600000"
      "fst (beat_process_body init_detector (frame (Finite 1) 300000))"]
  from a h1 have c1: "tempo (fst (beat_process_body (fst (run_detector init_detector [])) (frame (Finite 1) 300000))) = Finite 120
   \<and> beat_count (fst (beat_process_body (fst (run_detector init_detector [])) (frame (Finite 1) 300000))) = 1
   \<and> last_beat_time (fst (beat_process_body (fst (run_detector init_detector [])) (frame (Finite 1) 300000)))
        = timestamp (frame (Finite 1) 300000)"
    by blast
  from b h2 have c2: "snd (beat_process_body (fst (beat_process_body init_detector (frame (Finite 1) 300000))) (frame (Finite 5) 600000))
   \<and> 0 < beat_count (fst (beat_process_body init_detector (frame (Finite 1) 300000)))"
    by blast
  have e: "snd (run_detector init_detector []) = []" by simp
  from e h1 c1 h2 c2 show ?thesis by blast
qed

section \<open>Properties of initialisation and windowing\<close>

lemma generate_fail:
  "generate_window_coeffs False g wt len = (ESP_ERR_NO_MEM, g\<lparr>g_window_coeffs := None\<rparr>)"
  by (simp add: generate_window_coeffs_def)

lemma generate_ok:
  "generate_window_coeffs True g wt len = (ESP_OK, g\<lparr>g_window_coeffs := Some (window_table wt len)\<rparr>)"
  by (simp add: generate_window_coeffs_def)

lemma window_table_length: "length (window_table wt len) = nat len"
  by (simp add: window_table_def)

lemma init_rejected:
  "config_rejected config \<Longrightarrow> audio_processing_init lib m g config = (ESP_ERR_INVALID_ARG, g)"
  by (auto simp add: audio_processing_init_def config_rejected_def split: option.splits)

lemma init_lib_fail:
  "\<not> config_rejected (Some c) \<Longrightarrow> lib (fft_size c) \<noteq> ESP_OK \<Longrightarrow>
     audio_processing_init lib m g (Some c) = (lib (fft_size c), g\<lparr>g_audio_config := c\<rparr>)"
  by (auto simp add: audio_processing_init_def config_rejected_def Let_def)

lemma init_no_mem:
  "\<not> config_rejected (Some c) \<Longrightarrow> lib (fft_size c) = ESP_OK \<Longrightarrow>
     audio_processing_init lib False g (Some c)
       = (ESP_ERR_NO_MEM, g\<lparr>g_audio_config := c, g_window_coeffs := None\<rparr>)"
  by (auto simp add: audio_processing_init_def config_rejected_def Let_def generate_fail)

lemma init_ok:
  "\<not> config_rejected (Some c) \<Longrightarrow> lib (fft_size c) = ESP_OK \<Longrightarrow>
     audio_processing_init lib True g (Some c)
       = (ESP_OK, g\<lparr>g_audio_config := c,
                     g_window_coeffs := Some (window_table (window_type c) (fft_size c)),
                     g_initialized := True\<rparr>)"
  by (auto simp add: audio_processing_init_def config_rejected_def Let_def generate_ok)

lemma cached_globals_eq:
  "cached_globals =
     startup_globals\<lparr>g_audio_config := sample_config 64,
                     g_window_coeffs := Some (window_table AUDIO_WINDOW_HANN 64),
                     g_initialized := True\<rparr>"
proof -
  have "\<not> config_rejected (Some (sample_config 64))"
    by (simp add: config_rejected_def sample_config_def)
  then show ?thesis
    by (simp add: cached_globals_def init_ok) (simp add: sample_config_def)
qed

lemma apply_window_no_cache:
  "g_window_coeffs g = None \<Longrightarrow>
     audio_apply_window g (Some s) (Some w) len wt = window_switch s w len wt"
  by (simp add: audio_apply_window_def)

lemma window_loop_nonpos: "len \<le> 0 \<Longrightarrow> window_loop coeff s w len = Returned ESP_OK (Some w)"
  by (simp add: window_loop_def)

lemma window_loop_not_invalid: "window_loop coeff s w len \<noteq> Returned ESP_ERR_INVALID_ARG w'"
  by (simp add: window_loop_def)

lemma window_switch_not_invalid: "window_switch s w len wt \<noteq> Returned ESP_ERR_INVALID_ARG w'"
  by (simp add: window_switch_def window_loop_not_invalid)

lemma apply_window_invalid_iff:
  "audio_apply_window g samples windowed len wt = Returned ESP_ERR_INVALID_ARG w'
     \<longleftrightarrow> (samples = None \<or> windowed = None) \<and> w' = windowed"
  by (cases samples; cases windowed)
     (auto simp add: audio_apply_window_def window_switch_not_invalid window_loop_not_invalid
        split: option.splits)

lemma apply_window_nonpos:
  assumes "len \<le> 0" "len = 0 \<or> wt = AUDIO_WINDOW_HANN \<or> wt = AUDIO_WINDOW_HAMMING \<or> wt = AUDIO_WINDOW_BLACKMAN"
  shows "audio_apply_window g (Some s) (Some w) len wt = Returned ESP_OK (Some w)"
proof -
  have sw: "window_switch s w len wt = Returned ESP_OK (Some w)"
    using assms by (auto simp add: window_switch_def window_loop_nonpos)
  show ?thesis
  proof (cases "g_window_coeffs g")
    case None
    then show ?thesis by (simp add: apply_window_no_cache sw)
  next
    case (Some coeffs)
    then show ?thesis using assms(1) by (simp add: audio_apply_window_def sw window_loop_nonpos)
  qed
qed

text \<open>
  Claim C2 as stated fails.  The initialisation does not test for a power of two: with an
  FFT size of 100 the result is whatever the ESP-DSP call returns, \<^verbatim>\<open>ESP_OK\<close> included, and
  never \<^verbatim>\<open>ESP_ERR_INVALID_ARG\<close> of its own.  A configuration that passes every check
  still fails with \<^verbatim>\<open>ESP_ERR_NO_MEM\<close> when the coefficient buffer cannot be allocated.
\<close>

theorem init_validation_counterexample:
  "\<not> power_of_two (fft_size (sample_config 100))
   \<and> fst (audio_processing_init (\<lambda>n. ESP_OK) True startup_globals (Some (sample_config 100))) = ESP_OK
   \<and> fst (audio_processing_init (\<lambda>n. ESP_ERR_LIB 1) True startup_globals (Some (sample_config 100)))
        = ESP_ERR_LIB 1
   \<and> power_of_two (fft_size (sample_config 1024))
   \<and> fst (audio_processing_init (\<lambda>n. ESP_OK) False startup_globals (Some (sample_config 1024)))
        = ESP_ERR_NO_MEM"
  by (simp add: power_of_two_def sample_config_def audio_processing_init_def Let_def
        generate_window_coeffs_def)

text \<open>
  Claim C2, amended.  \<^verbatim>\<open>audio_processing_init\<close> returns \<^verbatim>\<open>ESP_ERR_INVALID_ARG\<close> and leaves
  the state untouched when the configuration pointer is null, \<^verbatim>\<open>fft_size\<close> is outside
  [64,4096] or \<^verbatim>\<open>sample_rate\<close> is outside [8000,96000].  Every other configuration is stored
  unchanged; the call then returns the FFT library's code if that initialisation fails,
  \<^verbatim>\<open>ESP_ERR_NO_MEM\<close> with an empty coefficient cache if the allocation fails, and otherwise
  \<^verbatim>\<open>ESP_OK\<close> with \<^verbatim>\<open>fft_size\<close> coefficients cached and the initialised flag set.  The
  function returns \<^verbatim>\<open>ESP_ERR_INVALID_ARG\<close> exactly when one of its three checks rejects or
  the library returns that code.
\<close>

theorem init_validation:
  "(config_rejected config \<longrightarrow>
      audio_processing_init lib m g config = (ESP_ERR_INVALID_ARG, g))
   \<and> (\<not> config_rejected (Some c) \<longrightarrow>
        g_audio_config (snd (audio_processing_init lib m g (Some c))) = c
      \<and> (lib (fft_size c) \<noteq> ESP_OK \<longrightarrow>
           audio_processing_init lib m g (Some c) = (lib (fft_size c), g\<lparr>g_audio_config := c\<rparr>))
      \<and> (lib (fft_size c) = ESP_OK \<and> \<not> m \<longrightarrow>
           audio_processing_init lib m g (Some c)
             = (ESP_ERR_NO_MEM, g\<lparr>g_audio_config := c, g_window_coeffs := None\<rparr>))
      \<and> (lib (fft_size c) = ESP_OK \<and> m \<longrightarrow>
           audio_processing_init lib m g (Some c)
             = (ESP_OK, g\<lparr>g_audio_config := c,
                           g_window_coeffs := Some (window_table (window_type c) (fft_size c)),
                           g_initialized := True\<rparr>)
           \<and> length (window_table (window_type c) (fft_size c)) = nat (fft_size c)))
   \<and> (fst (audio_processing_init lib m g config) = ESP_ERR_INVALID_ARG \<longleftrightarrow>
        config_rejected config
        \<or> (\<exists>c. config = Some c \<and> lib (fft_size c) = ESP_ERR_INVALID_ARG))"
proof (intro conjI impI)
  assume "config_rejected config"
  then show "audio_processing_init lib m g config = (ESP_ERR_INVALID_ARG, g)"
    by (rule init_rejected)
next
  assume v: "\<not> config_rejected (Some c)"
  show "g_audio_config (snd (audio_processing_init lib m g (Some c))) = c"
  proof (cases "lib (fft_size c) = ESP_OK")
    case False
    with v show ?thesis by (simp add: init_lib_fail)
  next
    case True
    with v show ?thesis by (cases m) (simp_all add: init_ok init_no_mem)
  qed
  show "audio_processing_init lib m g (Some c) = (lib (fft_size c), g\<lparr>g_audio_config := c\<rparr>)"
    if "lib (fft_size c) \<noteq> ESP_OK"
    using v that by (rule init_lib_fail)
  show "audio_processing_init lib m g (Some c)
             = (ESP_ERR_NO_MEM, g\<lparr>g_audio_config := c, g_window_coeffs := None\<rparr>)"
    if "lib (fft_size c) = ESP_OK \<and> \<not> m"
    using v that by (simp add: init_no_mem)
  show "audio_processing_init lib m g (Some c)
             = (ESP_OK, g\<lparr>g_audio_config := c,
                           g_window_coeffs := Some (window_table (window_type c) (fft_size c)),
                           g_initialized := True\<rparr>)"
    if "lib (fft_size c) = ESP_OK \<and> m"
    using v that by (simp add: init_ok)
  show "length (window_table (window_type c) (fft_size c)) = nat (fft_size c)"
    by (rule window_table_length)
next
  show "fst (audio_processing_init lib m g config) = ESP_ERR_INVALID_ARG \<longleftrightarrow>
        config_rejected config
        \<or> (\<exists>c. config = Some c \<and> lib (fft_size c) = ESP_ERR_INVALID_ARG)"
  proof (cases "config_rejected config")
    case True
    then show ?thesis by (simp add: init_rejected)
  next
    case False
    then obtain c where c: "config = Some c" by (cases config) (simp_all add: config_rejected_def)
    with False have v: "\<not> config_rejected (Some c)" by simp
    show ?thesis
    proof (cases "lib (fft_size c) = ESP_OK")
      case False
      with v c show ?thesis by (simp add: init_lib_fail)
    next
      case True
      with v c show ?thesis by (cases m) (simp_all add: init_ok init_no_mem)
    qed
  qed
qed

theorem init_validation_witness:
  "config_rejected None
   \<and> audio_processing_init (\<lambda>n. ESP_OK) True startup_globals None = (ESP_ERR_INVALID_ARG, startup_globals)
   \<and> \<not> config_rejected (Some (sample_config 1024))
   \<and> g_audio_config (snd (audio_processing_init (\<lambda>n. ESP_OK) True startup_globals (Some (sample_config 1024))))
       = sample_config 1024
   \<and> fst (audio_processing_init (\<lambda>n. ESP_OK) True startup_globals (Some (sample_config 1024))) = ESP_OK
   \<and> g_initialized (snd (audio_processing_init (\<lambda>n. ESP_OK) True startup_globals (Some (sample_config 1024))))"
proof -
  have r: "config_rejected None" by (simp add: config_rejected_def)
  have v: "\<not> config_rejected (Some (sample_config 1024))"
    by (simp add: config_rejected_def sample_config_def)
  from init_validation[of None "\<lambda>n. ESP_OK" True startup_globals "sample_config 1024"] r v
  show ?thesis by simp
qed

text \<open>
  Claim C7 as stated fails.  \<^verbatim>\<open>generate_window_coeffs\<close> frees the cached buffer before it
  allocates the new one, so after a failed allocation the cache is empty, and
  \<^verbatim>\<open>audio_processing_init\<close> has already replaced the stored configuration.
\<close>

theorem regeneration_failure_counterexample:
  "g_window_coeffs cached_globals = Some (window_table AUDIO_WINDOW_HANN 64)
   \<and> fst (generate_window_coeffs False cached_globals AUDIO_WINDOW_HANN 64) = ESP_ERR_NO_MEM
   \<and> g_window_coeffs (snd (generate_window_coeffs False cached_globals AUDIO_WINDOW_HANN 64)) = None
   \<and> fst (audio_processing_init (\<lambda>n. ESP_OK) False cached_globals (Some (sample_config 128)))
        = ESP_ERR_NO_MEM
   \<and> snd (audio_processing_init (\<lambda>n. ESP_OK) False cached_globals (Some (sample_config 128)))
        \<noteq> cached_globals"
proof -
  have v: "\<not> config_rejected (Some (sample_config 128))"
    by (simp add: config_rejected_def sample_config_def)
  have "g_window_coeffs (snd (audio_processing_init (\<lambda>n. ESP_OK) False cached_globals (Some (sample_config 128))))
      \<noteq> g_window_coeffs cached_globals"
    using v by (simp add: init_no_mem) (simp add: cached_globals_eq)
  then have "snd (audio_processing_init (\<lambda>n. ESP_OK) False cached_globals (Some (sample_config 128)))
        \<noteq> cached_globals" by auto
  then show ?thesis using v
    by (simp add: generate_fail init_no_mem) (simp add: cached_globals_eq)
qed

text \<open>
  Claim C7, amended.  When the regeneration fails with \<^verbatim>\<open>ESP_ERR_NO_MEM\<close> (which happens
  exactly when the allocation fails) the previous buffer has been freed and the cache pointer
  is null; the rest of the state is as before the regeneration, where
  \<^verbatim>\<open>audio_processing_init\<close> has already stored the new configuration and has not touched
  the initialised flag.  With the cache empty, \<^verbatim>\<open>audio_apply_window\<close> computes the
  coefficients on the fly.
\<close>

theorem regeneration_failure:
  "generate_window_coeffs False g wt len = (ESP_ERR_NO_MEM, g\<lparr>g_window_coeffs := None\<rparr>)
   \<and> (fst (generate_window_coeffs m g wt len) = ESP_ERR_NO_MEM \<longleftrightarrow> \<not> m)
   \<and> (\<not> config_rejected (Some c) \<and> lib (fft_size c) = ESP_OK \<longrightarrow>
        audio_processing_init lib False g (Some c)
          = (ESP_ERR_NO_MEM, g\<lparr>g_audio_config := c, g_window_coeffs := None\<rparr>))
   \<and> audio_apply_window (g\<lparr>g_window_coeffs := None\<rparr>) (Some s) (Some w) n wt
        = window_switch s w n wt"
proof (intro conjI impI)
  show "generate_window_coeffs False g wt len = (ESP_ERR_NO_MEM, g\<lparr>g_window_coeffs := None\<rparr>)"
    by (rule generate_fail)
  show "fst (generate_window_coeffs m g wt len) = ESP_ERR_NO_MEM \<longleftrightarrow> \<not> m"
    by (simp add: generate_window_coeffs_def)
  show "audio_processing_init lib False g (Some c)
          = (ESP_ERR_NO_MEM, g\<lparr>g_audio_config := c, g_window_coeffs := None\<rparr>)"
    if "\<not> config_rejected (Some c) \<and> lib (fft_size c) = ESP_OK"
    using that by (simp add: init_no_mem)
  show "audio_apply_window (g\<lparr>g_window_coeffs := None\<rparr>) (Some s) (Some w) n wt
        = window_switch s w n wt"
    by (simp add: apply_window_no_cache)
qed

theorem regeneration_failure_witness:
  "\<not> config_rejected (Some (sample_config 128))
   \<and> audio_processing_init (\<lambda>n. ESP_OK) False cached_globals (Some (sample_config 128))
       = (ESP_ERR_NO_MEM, cached_globals\<lparr>g_audio_config := sample_config 128, g_window_coeffs := None\<rparr>)"
proof -
  have v: "\<not> config_rejected (Some (sample_config 128))"
    by (simp add: config_rejected_def sample_config_def)
  from regeneration_failure[of cached_globals 0 0 True "sample_config 128" "\<lambda>n. ESP_OK" "[]" "[]" 0] v
  show ?thesis by simp
qed

text \<open>
  Claim C8 as stated fails.  Neither function looks at the length: windowing with length 0
  returns \<^verbatim>\<open>ESP_OK\<close>, and with length 1 both functions compute one coefficient, with a zero
  divisor, and store it.
\<close>

theorem window_length_counterexample:
  "audio_apply_window startup_globals (Some [1/2]) (Some [Fin 7]) 0 AUDIO_WINDOW_HANN
     = Returned ESP_OK (Some [Fin 7])
   \<and> audio_apply_window startup_globals (Some [1/2]) (Some [Fin 7]) 1 AUDIO_WINDOW_HANN
     = Returned ESP_OK (Some [NaN])
   \<and> generate_window_coeffs True startup_globals AUDIO_WINDOW_HANN 1
     = (ESP_OK, startup_globals\<lparr>g_window_coeffs := Some [NaN]\<rparr>)"
  by (simp add: audio_apply_window_def startup_globals_def window_switch_def window_loop_def
        hann_coeff_def cos_term_def generate_window_coeffs_def window_table_def)

text \<open>
  Claim C8, amended.  \<^verbatim>\<open>generate_window_coeffs\<close> never returns \<^verbatim>\<open>ESP_ERR_INVALID_ARG\<close>,
  and \<^verbatim>\<open>audio_apply_window\<close> returns it exactly when the sample or the output pointer is
  null.  With both buffers present, a length of 0, or a negative length with a Hann, Hamming
  or Blackman window, returns \<^verbatim>\<open>ESP_OK\<close> without computing a coefficient or writing a
  sample; for a length of at most 0 the generated table is empty.
\<close>

theorem window_length_unchecked:
  "fst (generate_window_coeffs m g wt len) \<noteq> ESP_ERR_INVALID_ARG
   \<and> (audio_apply_window g samples windowed len wt = Returned ESP_ERR_INVALID_ARG w'
        \<longleftrightarrow> (samples = None \<or> windowed = None) \<and> w' = windowed)
   \<and> (len \<le> 0 \<and> (len = 0 \<or> wt = AUDIO_WINDOW_HANN \<or> wt = AUDIO_WINDOW_HAMMING
                          \<or> wt = AUDIO_WINDOW_BLACKMAN) \<longrightarrow>
        audio_apply_window g (Some s) (Some w) len wt = Returned ESP_OK (Some w))
   \<and> (len \<le> 0 \<longrightarrow> window_table wt len = [])"
proof (intro conjI impI)
  show "fst (generate_window_coeffs m g wt len) \<noteq> ESP_ERR_INVALID_ARG"
    by (simp add: generate_window_coeffs_def)
  show "audio_apply_window g samples windowed len wt = Returned ESP_ERR_INVALID_ARG w'
        \<longleftrightarrow> (samples = None \<or> windowed = None) \<and> w' = windowed"
    by (rule apply_window_invalid_iff)
  show "audio_apply_window g (Some s) (Some w) len wt = Returned ESP_OK (Some w)"
    if "len \<le> 0 \<and> (len = 0 \<or> wt = AUDIO_WINDOW_HANN \<or> wt = AUDIO_WINDOW_HAMMING
                          \<or> wt = AUDIO_WINDOW_BLACKMAN)"
    using that by (simp add: apply_window_nonpos)
  show "window_table wt len = []" if "len \<le> 0"
    using that by (simp add: window_table_def)
qed

theorem window_length_unchecked_witness:
  "(-3::int) \<le> 0
   \<and> audio_apply_window startup_globals (Some [1/2]) (Some [Fin 7]) (-3) AUDIO_WINDOW_HAMMING
       = Returned ESP_OK (Some [Fin 7])
   \<and> window_table AUDIO_WINDOW_HAMMING (-3) = []"
  using window_length_unchecked[of True startup_globals AUDIO_WINDOW_HAMMING "-3" "Some [1/2]"
      "Some [Fin 7]" None "[1/2]" "[Fin 7]"]
  by simp


section \<open>Sums and quotients of magnitudes\<close>

lemma rne_bound:
  assumes "\<bar>y\<bar> \<le> of_int m"
  shows "\<bar>rne y\<bar> \<le> m"
proof -
  have "y \<le> of_int m" "of_int (- m) \<le> y" using assms by (simp_all add: abs_le_iff)
  from rne_mono[OF this(1)] rne_mono[OF this(2)] show ?thesis
    by (simp add: rne_int rne_neg abs_le_iff)
qed

lemma quant_idem: "quant (quant x) = quant x"
proof (cases "x = 0")
  case True
  then show ?thesis by (simp add: quant_0)
next
  case False
  define u where "u = ulp_exp x"
  define n where "n = rne (x / 2 powi u)"
  have q: "quant x = of_int n * 2 powi u" using False by (simp add: quant_def u_def n_def)
  have u149: "- 149 \<le> u" by (simp add: u_def ulp_exp_def)
  have e: "expo x - 23 \<le> u" by (simp add: u_def ulp_exp_def)
  have "\<bar>x\<bar> < 2 powi (expo x + 1)" using expo_bounds[OF False] by simp
  also have "\<dots> \<le> 2 powi (u + 24)" using e by (intro power_int_increasing) simp_all
  also have "\<dots> = 2 ^ 24 * 2 powi u" by (simp add: power_int_add mult.commute)
  finally have "\<bar>x\<bar> / 2 powi u < 2 ^ 24" by (simp add: field_simps)
  then have "\<bar>x / 2 powi u\<bar> \<le> of_int (2 ^ 24)" by simp
  from rne_bound[OF this] have nb: "\<bar>n\<bar> \<le> 2 ^ 24" by (simp add: n_def)
  show ?thesis
  proof (cases "\<bar>n\<bar> < 2 ^ 24")
    case True
    have "quant (of_int n * 2 powi u) = of_int n * 2 powi u"
      by (rule quant_repr[where m=n and e=u]) (use True u149 in simp_all)
    then show ?thesis by (simp add: q)
  next
    case hi: False
    with nb have "n = 2 ^ 24 \<or> n = - (2 ^ 24)" by linarith
    moreover have p: "(2::real) ^ 24 * 2 powi u = 2 powi (u + 24)"
      by (simp add: power_int_add mult.commute)
    moreover have "quant (2 powi (u + 24)) = 2 powi (u + 24)"
      using u149 by (intro quant_pow) simp
    ultimately show ?thesis
      using quant_neg[of "2 powi (u + 24)"] by (auto simp add: q)
  qed
qed

lemma quant_1: "quant 1 = 1"
  using quant_pow[of 0] by simp

text \<open>The rounding of a number that is not negative.\<close>

lemma round32_nonneg:
  assumes "0 \<le> x"
  shows "(round32 x = Finite (quant x) \<and> magnitude (Finite (quant x))) \<or> round32 x = PlusInf"
proof -
  have "0 \<le> quant x" using assms by (rule quant_nonneg)
  then show ?thesis using assms by (auto simp add: round32_def quant_idem not_le)
qed

lemma magnitude_cases:
  "magnitude x \<Longrightarrow> (\<And>v. x = Finite v \<Longrightarrow> 0 \<le> v \<Longrightarrow> quant v = v \<Longrightarrow> v < 2 ^ 128 \<Longrightarrow> P) \<Longrightarrow> P"
  by (cases x) simp_all

text \<open>A sum of two magnitudes is a magnitude that is not below either, or it overflows.\<close>

lemma add_magnitudes:
  assumes "magnitude a" "magnitude b"
  shows "(magnitude (f32_add a b) \<and> f32_val a \<le> f32_val (f32_add a b)
          \<and> f32_val b \<le> f32_val (f32_add a b)
          \<and> f32_add a b = Finite (quant (f32_val a + f32_val b)))
         \<or> f32_add a b = PlusInf"
proof -
  from assms(1) obtain v where a: "a = Finite v" "0 \<le> v" "quant v = v" by (rule magnitude_cases)
  from assms(2) obtain w where b: "b = Finite w" "0 \<le> w" "quant w = w" by (rule magnitude_cases)
  have s: "f32_add a b = round32 (v + w)" by (simp add: a b f32_add_Finite)
  have "quant v \<le> quant (v + w)" using b(2) by (intro quant_mono) simp
  then have 1: "v \<le> quant (v + w)" by (simp only: a(3))
  have "quant w \<le> quant (v + w)" using a(2) by (intro quant_mono) simp
  then have 2: "w \<le> quant (v + w)" by (simp only: b(3))
  from 1 2 have True by simp
  then show ?thesis
    unfolding a(1) b(1) f32_add_Finite
    using round32_nonneg[of "v + w"] a(2) b(2) 1 2 by auto
qed

lemma magnitude_round32: "magnitude (Finite v) \<Longrightarrow> round32 v = Finite v"
  by (auto simp add: round32_def)


section \<open>Properties of the chroma vector\<close>

lemma c_mod_bounds: "0 < b \<Longrightarrow> - b < c_mod a b \<and> c_mod a b < b"
proof -
  assume b: "0 < b"
  have "0 \<le> \<bar>a\<bar> mod \<bar>b\<bar>" "\<bar>a\<bar> mod \<bar>b\<bar> < b" using b by simp_all
  then show ?thesis by (auto simp add: c_mod_def sgn_if)
qed

lemma pitch_class_range: "0 \<le> pitch_class log2f fr \<and> pitch_class log2f fr < 12"
  using c_mod_bounds[of 12 "roundf (f32_val (midi_note log2f fr))"]
  by (auto simp add: pitch_class_def Let_def)

lemma chroma_step_length: "length (chroma_step log2f s sz srate i chr) = length chr"
  by (simp add: chroma_step_def Let_def)

lemma chroma_fold_length: "length (fold (chroma_step log2f s sz srate) is chr) = length chr"
  by (induction "is" arbitrary: chr) (simp_all add: chroma_step_length)

lemma chroma_accumulate_length: "length (chroma_accumulate log2f s sz srate) = 12"
  by (simp add: chroma_accumulate_def chroma_fold_length)

lemma add_inf_magnitude: "magnitude b \<Longrightarrow> f32_add PlusInf b = PlusInf"
  by (cases b) (simp_all add: f32_add_def)

lemma add_magnitude_inf: "magnitude a \<Longrightarrow> f32_add a PlusInf = PlusInf"
  by (cases a) (simp_all add: f32_add_def)

lemma chroma_step_magnitudes:
  assumes len: "length chr = 12" and chr: "\<forall>x \<in> set chr. magnitude x \<or> x = PlusInf"
    and m: "magnitude (s ! i)"
  shows "\<forall>x \<in> set (chroma_step log2f s sz srate i chr). magnitude x \<or> x = PlusInf"
proof -
  have "magnitude (f32_add (chr ! k) (s ! i)) \<or> f32_add (chr ! k) (s ! i) = PlusInf" if "k < 12" for k
  proof -
    have "chr ! k \<in> set chr" using that len by simp
    with chr have "magnitude (chr ! k) \<or> chr ! k = PlusInf" by blast
    then show ?thesis
      using add_magnitudes[OF _ m, of "chr ! k"] add_inf_magnitude[OF m] by auto
  qed
  moreover have "nat (pitch_class log2f fr) < 12" for fr
    using pitch_class_range[of log2f fr] by linarith
  ultimately have n: "magnitude (f32_add (chr ! nat (pitch_class log2f fr)) (s ! i))
      \<or> f32_add (chr ! nat (pitch_class log2f fr)) (s ! i) = PlusInf" for fr
    by blast
  show ?thesis
  proof
    fix x assume x: "x \<in> set (chroma_step log2f s sz srate i chr)"
    show "magnitude x \<or> x = PlusInf"
    proof (cases "f32_gt (bin_freq (int i) srate sz) (Finite 80) \<and> f32_lt (bin_freq (int i) srate sz) (Finite 2000)")
      case True
      let ?pc = "nat (pitch_class log2f (bin_freq (int i) srate sz))"
      from True x have "x \<in> set (chr[?pc := f32_add (chr ! ?pc) (s ! i)])"
        by (simp add: chroma_step_def Let_def)
      then have "x = f32_add (chr ! ?pc) (s ! i) \<or> x \<in> set chr"
        using set_update_subset_insert[of chr ?pc "f32_add (chr ! ?pc) (s ! i)"] by auto
      then show ?thesis using n chr by auto
    next
      case False
      with x have "x \<in> set chr" by (auto simp add: chroma_step_def Let_def)
      with chr show ?thesis by blast
    qed
  qed
qed

lemma chroma_fold_magnitudes:
  assumes "length chr = 12" "\<forall>x \<in> set chr. magnitude x \<or> x = PlusInf"
    "\<forall>i \<in> set is. magnitude (s ! i)"
  shows "\<forall>x \<in> set (fold (chroma_step log2f s sz srate) is chr). magnitude x \<or> x = PlusInf"
  using assms
proof (induction "is" arbitrary: chr)
  case Nil
  then show ?case by simp
next
  case (Cons i rest)
  have 1: "length (chroma_step log2f s sz srate i chr) = 12"
    using Cons.prems(1) by (simp add: chroma_step_length)
  have 2: "\<forall>x \<in> set (chroma_step log2f s sz srate i chr). magnitude x \<or> x = PlusInf"
    using Cons.prems by (intro chroma_step_magnitudes) simp_all
  have 3: "\<forall>i \<in> set rest. magnitude (s ! i)" using Cons.prems(3) by simp
  from Cons.IH[OF 1 2 3] show ?case by simp
qed

lemma magnitude_0: "magnitude (Finite 0)"
  by (simp add: quant_0)

lemma chroma_accumulate_magnitudes:
  assumes "\<forall>i. 1 \<le> i \<and> i < nat sz \<longrightarrow> magnitude (s ! i)"
  shows "\<forall>x \<in> set (chroma_accumulate log2f s sz srate). magnitude x \<or> x = PlusInf"
proof -
  have 1: "length (replicate 12 (Finite 0)) = 12" by simp
  have 2: "\<forall>x \<in> set (replicate 12 (Finite 0)). magnitude x \<or> x = PlusInf"
    using magnitude_0 by simp
  have 3: "\<forall>i \<in> set [1..<nat sz]. magnitude (s ! i)" using assms by simp
  from chroma_fold_magnitudes[OF 1 2 3] show ?thesis by (simp only: chroma_accumulate_def)
qed

text \<open>A sum of magnitudes, added up in order.\<close>

lemma sum_inf:
  "\<forall>x \<in> set xs. magnitude x \<or> x = PlusInf \<Longrightarrow> fold (\<lambda>x a. f32_add a x) xs PlusInf = PlusInf"
proof (induction xs)
  case Nil then show ?case by simp
next
  case (Cons x xs)
  have "magnitude x \<or> x = PlusInf" using Cons.prems by simp
  then have "f32_add PlusInf x = PlusInf"
  proof
    assume "magnitude x" then show ?thesis by (rule add_inf_magnitude)
  next
    assume "x = PlusInf" then show ?thesis by (simp add: f32_add_def)
  qed
  with Cons show ?case by simp
qed

lemma sum_magnitudes:
  assumes "\<forall>x \<in> set xs. magnitude x \<or> x = PlusInf" "magnitude a"
  shows "fold (\<lambda>x a. f32_add a x) xs a = PlusInf
     \<or> (magnitude (fold (\<lambda>x a. f32_add a x) xs a)
         \<and> f32_val a \<le> f32_val (fold (\<lambda>x a. f32_add a x) xs a)
         \<and> (\<forall>x \<in> set xs. magnitude x \<and> f32_val x \<le> f32_val (fold (\<lambda>x a. f32_add a x) xs a)))"
  using assms
proof (induction xs arbitrary: a)
  case Nil
  then show ?case by simp
next
  case (Cons x xs)
  have rest: "\<forall>x \<in> set xs. magnitude x \<or> x = PlusInf" using Cons.prems(1) by simp
  show ?case
  proof (cases "f32_add a x = PlusInf")
    case True
    then show ?thesis using sum_inf[OF rest] by simp
  next
    case False
    have mx: "magnitude x"
    proof (rule ccontr)
      assume "\<not> magnitude x"
      with Cons.prems(1) have "x = PlusInf" by simp
      with add_magnitude_inf[OF Cons.prems(2)] False show False by simp
    qed
    from add_magnitudes[OF Cons.prems(2) mx] False
    have a': "magnitude (f32_add a x)" "f32_val a \<le> f32_val (f32_add a x)"
      "f32_val x \<le> f32_val (f32_add a x)" by blast+
    from Cons.IH[OF rest a'(1)] show ?thesis
      using a'(2,3) mx by auto
  qed
qed

lemma chroma_total_list:
  "length chr = 12 \<Longrightarrow> chroma_total chr = fold (\<lambda>x a. f32_add a x) chr (Finite 0)"
  by (simp add: chroma_total_def fold_index_list)

text \<open>
  The normalisation of lines 366--370: with a finite total the entries of the result are
  numbers between 0 and 1.
\<close>

lemma normalised_entries:
  assumes len: "length chr = 12" and chr: "\<forall>x \<in> set chr. magnitude x \<or> x = PlusInf"
    and fin: "chroma_total chr \<noteq> PlusInf"
  shows "\<forall>x \<in> set (if f32_gt (chroma_total chr) (Finite 0)
                     then map (\<lambda>x. f32_div x (chroma_total chr)) chr else chr).
           magnitude x \<and> f32_val x \<le> 1"
proof -
  let ?S = "chroma_total chr"
  from sum_magnitudes[OF chr magnitude_0] fin
  have S: "magnitude ?S" and le: "\<forall>x \<in> set chr. magnitude x \<and> f32_val x \<le> f32_val ?S"
    by (simp_all add: chroma_total_list[OF len])
  from S obtain t where t: "?S = Finite t" "0 \<le> t" by (rule magnitude_cases)
  show ?thesis
  proof (cases "f32_gt ?S (Finite 0)")
    case True
    then have tpos: "0 < t" by (simp add: t f32_gt_Finite)
    have "magnitude (f32_div x ?S) \<and> f32_val (f32_div x ?S) \<le> 1" if "x \<in> set chr" for x
    proof -
      from le that have mx: "magnitude x" and xt: "f32_val x \<le> t" by (simp_all add: t)
      from mx obtain v where v: "x = Finite v" "0 \<le> v" by (rule magnitude_cases)
      have d: "f32_div x ?S = round32 (v / t)" using v tpos by (simp add: t f32_div_Finite)
      have r: "0 \<le> v / t" "v / t \<le> 1" using v xt tpos by (simp_all add: v)
      have "quant (v / t) \<le> quant 1" using r(2) by (rule quant_mono)
      then have q1: "quant (v / t) \<le> 1" by (simp add: quant_1)
      have "v / t \<le> 2 ^ 127" using r(2) by (rule order_trans) simp
      from round32_pos[OF r(1) this] have "round32 (v / t) = Finite (quant (v / t))" .
      then show ?thesis using q1 quant_nonneg[OF r(1)] by (simp add: d quant_idem)
    qed
    then show ?thesis using True by simp
  next
    case False
    then have "t = 0" using t by (simp add: f32_gt_Finite)
    with le t have "\<forall>x \<in> set chr. magnitude x \<and> f32_val x \<le> 1" by auto
    then show ?thesis using False by simp
  qed
qed

section \<open>Properties of the template matching\<close>

lemma f32_gt_irrefl: "\<not> f32_gt a a"
  by (cases a) (simp_all add: f32_gt_def)

lemma f32_gt_trans: "f32_gt a b \<Longrightarrow> f32_gt b c \<Longrightarrow> f32_gt a c"
  by (cases a; cases b; cases c) (simp_all add: f32_gt_def)

lemma f32_gt_total:
  "magnitude a \<or> a = PlusInf \<Longrightarrow> magnitude b \<or> b = PlusInf \<Longrightarrow> f32_gt a b \<or> a = b \<or> f32_gt b a"
  by (cases a; cases b) (auto simp add: f32_gt_def)

lemma f32_gt_zero: "magnitude a \<or> a = PlusInf \<Longrightarrow> \<not> f32_gt (Finite 0) a"
  by (cases a) (auto simp add: f32_gt_def)

lemma templates_shape:
  "length chord_templates = 24
   \<and> (\<forall>t \<in> set chord_templates. length t = 12 \<and> (\<forall>x \<in> set t. x = Finite 0 \<or> x = Finite 1))"
  by (simp add: chord_templates_def)

lemma template_entry:
  "c < 24 \<Longrightarrow> i < 12 \<Longrightarrow> chord_templates ! c ! i = Finite 0 \<or> chord_templates ! c ! i = Finite 1"
proof -
  assume c: "c < 24" and i: "i < 12"
  then have "chord_templates ! c \<in> set chord_templates" using templates_shape by simp
  with templates_shape have "length (chord_templates ! c) = 12"
    and r: "\<forall>x \<in> set (chord_templates ! c). x = Finite 0 \<or> x = Finite 1" by blast+
  with i have "chord_templates ! c ! i \<in> set (chord_templates ! c)" by simp
  with r show ?thesis by blast
qed

lemma template_product:
  assumes "magnitude x" "t = Finite 0 \<or> t = Finite 1"
  shows "f32_mul x t = (if t = Finite 1 then x else Finite 0)"
proof -
  from assms(1) obtain v where v: "x = Finite v" "0 \<le> v" "quant v = v" "v < 2 ^ 128"
    by (rule magnitude_cases)
  have "round32 v = Finite v" using assms(1) unfolding v(1) by (rule magnitude_round32)
  then show ?thesis using assms(2) v by (auto simp add: f32_mul_Finite round32_0)
qed

lemma correlation_terms:
  "correlation chr c
     = fold (\<lambda>x a. f32_add a x) (map (\<lambda>i. f32_mul (chr ! i) (chord_templates ! c ! i)) [0..<12]) (Finite 0)"
  by (simp add: correlation_def fold_map comp_def)

lemma correlation_value:
  assumes "length chr = 12" "\<forall>x \<in> set chr. magnitude x" "c < 24"
  shows "magnitude (correlation chr c) \<or> correlation chr c = PlusInf"
proof -
  have "magnitude (f32_mul (chr ! i) (chord_templates ! c ! i))" if "i < 12" for i
  proof -
    have m: "magnitude (chr ! i)" using assms(1,2) that by simp
    from template_product[OF m template_entry[OF assms(3) that]] m
    show ?thesis by (simp add: quant_0)
  qed
  then have "\<forall>x \<in> set (map (\<lambda>i. f32_mul (chr ! i) (chord_templates ! c ! i)) [0..<12]).
      magnitude x \<or> x = PlusInf" by auto
  from sum_magnitudes[OF this magnitude_0] show ?thesis
    unfolding correlation_terms by blast
qed

lemma match_fold:
  assumes len: "length chr = 12" and chr: "\<forall>x \<in> set chr. magnitude x" and n: "n \<le> 24"
  shows "(magnitude (fst (fold (match_step chr) [0..<n] (Finite 0, 0)))
          \<or> fst (fold (match_step chr) [0..<n] (Finite 0, 0)) = PlusInf)
   \<and> (\<forall>c < n. \<not> f32_gt (correlation chr c) (fst (fold (match_step chr) [0..<n] (Finite 0, 0))))
   \<and> ((fst (fold (match_step chr) [0..<n] (Finite 0, 0)) = Finite 0
        \<and> snd (fold (match_step chr) [0..<n] (Finite 0, 0)) = 0)
      \<or> (snd (fold (match_step chr) [0..<n] (Finite 0, 0)) < n
          \<and> correlation chr (snd (fold (match_step chr) [0..<n] (Finite 0, 0)))
              = fst (fold (match_step chr) [0..<n] (Finite 0, 0))
          \<and> (\<forall>c < snd (fold (match_step chr) [0..<n] (Finite 0, 0)).
                 f32_gt (fst (fold (match_step chr) [0..<n] (Finite 0, 0))) (correlation chr c))))"
  using n
proof (induction n)
  case 0
  then show ?case by (simp add: quant_0)
next
  case (Suc n)
  let ?p = "fold (match_step chr) [0..<n] (Finite 0, 0)"
  have unf: "fold (match_step chr) [0..<Suc n] (Finite 0, 0) = match_step chr n ?p" by simp
  have n24: "n < 24" using Suc.prems by simp
  have cv: "magnitude (correlation chr c) \<or> correlation chr c = PlusInf" if "c < 24" for c
    using correlation_value[OF len chr that] .
  from Suc have IH1: "magnitude (fst ?p) \<or> fst ?p = PlusInf"
    and IH2: "\<forall>c < n. \<not> f32_gt (correlation chr c) (fst ?p)"
    and IH3: "(fst ?p = Finite 0 \<and> snd ?p = 0)
      \<or> (snd ?p < n \<and> correlation chr (snd ?p) = fst ?p
          \<and> (\<forall>c < snd ?p. f32_gt (fst ?p) (correlation chr c)))"
    by simp_all
  show ?case
  proof (cases "f32_gt (correlation chr n) (fst ?p)")
    case True
    then have r: "match_step chr n ?p = (correlation chr n, n)" by (simp add: match_step_def)
    have a: "\<not> f32_gt (correlation chr c) (correlation chr n)" if "c < Suc n" for c
    proof (cases "c = n")
      case True
      then show ?thesis by (simp add: f32_gt_irrefl)
    next
      case False
      with that have c: "c < n" by simp
      show ?thesis
      proof
        assume "f32_gt (correlation chr c) (correlation chr n)"
        from f32_gt_trans[OF this True] IH2 c show False by simp
      qed
    qed
    have b: "f32_gt (correlation chr n) (correlation chr c)" if "c < n" for c
    proof -
      have c24: "c < 24" using that n24 by simp
      from f32_gt_total[OF cv[OF n24] cv[OF c24]]
      consider "f32_gt (correlation chr n) (correlation chr c)"
        | "correlation chr n = correlation chr c"
        | "f32_gt (correlation chr c) (correlation chr n)" by blast
      then show ?thesis
      proof cases
        case 1 then show ?thesis .
      next
        case 2
        with True IH2 that show ?thesis by simp
      next
        case 3
        with a[of c] that show ?thesis by simp
      qed
    qed
    show ?thesis unfolding unf r using cv[OF n24] a b by simp
  next
    case False
    then have r: "match_step chr n ?p = ?p" by (simp add: match_step_def)
    from False IH1 IH2 IH3 show ?thesis unfolding unf r
      by (auto simp add: less_Suc_eq)
  qed
qed

lemma match_templates_best:
  assumes "length chr = 12" "\<forall>x \<in> set chr. magnitude x"
  shows "snd (match_templates chr) < 24
    \<and> fst (match_templates chr) = correlation chr (snd (match_templates chr))
    \<and> (\<forall>c < 24. \<not> f32_gt (correlation chr c) (correlation chr (snd (match_templates chr))))
    \<and> (\<forall>c < snd (match_templates chr).
          f32_gt (correlation chr (snd (match_templates chr))) (correlation chr c))"
proof -
  let ?p = "fold (match_step chr) [0..<24] (Finite 0, 0)"
  note m = match_fold[OF assms, of 24, simplified]
  have c0: "magnitude (correlation chr 0) \<or> correlation chr 0 = PlusInf"
    using correlation_value[OF assms, of 0] by simp
  have main: "snd ?p < 24 \<and> correlation chr (snd ?p) = fst ?p
      \<and> (\<forall>c < snd ?p. f32_gt (fst ?p) (correlation chr c))"
  proof (rule disjE[OF m[THEN conjunct2, THEN conjunct2]])
    assume z: "fst ?p = Finite 0 \<and> snd ?p = 0"
    from m have "\<not> f32_gt (correlation chr 0) (fst ?p)" by simp
    with z have "\<not> f32_gt (correlation chr 0) (Finite 0)" by simp
    moreover have "\<not> f32_gt (Finite 0) (correlation chr 0)" using c0 by (rule f32_gt_zero)
    ultimately have "correlation chr 0 = Finite 0"
      using f32_gt_total[OF c0, of "Finite 0"] magnitude_0 by blast
    with z show ?thesis by simp
  next
    assume "snd ?p < 24 \<and> correlation chr (snd ?p) = fst ?p
        \<and> (\<forall>c < snd ?p. f32_gt (fst ?p) (correlation chr c))"
    then show ?thesis .
  qed
  moreover from main m have "\<forall>c < 24. \<not> f32_gt (correlation chr c) (correlation chr (snd ?p))"
    by simp
  ultimately show ?thesis by (simp add: match_templates_def CHORD_TEMPLATES_def)
qed

lemma analyze_chords_fields:
  "root_note (analyze_chords log2f s cc) =
     (if f32_gt (fst (match_templates (frame_chroma log2f s))) (round32 (3/10))
      then int (snd (match_templates (frame_chroma log2f s))) mod 12 else root_note cc)"
  "chord_type (analyze_chords log2f s cc) =
     (if f32_gt (fst (match_templates (frame_chroma log2f s))) (round32 (3/10))
      then (if snd (match_templates (frame_chroma log2f s)) \<ge> 12 then 1 else 0) else chord_type cc)"
  "chord_confidence (analyze_chords log2f s cc) =
     (if f32_gt (fst (match_templates (frame_chroma log2f s))) (round32 (3/10))
      then fst (match_templates (frame_chroma log2f s)) else chord_confidence cc)"
  "chord_chroma (analyze_chords log2f s cc) =
     (if f32_gt (chroma_total (chroma_accumulate log2f s FREQ_BINS I2S_SAMPLE_RATE)) (Finite 0)
      then frame_chroma log2f s else chord_chroma cc)"
  by (simp_all add: analyze_chords_def frame_chroma_def Let_def split: prod.split)

lemma frame_chroma_entries:
  assumes "\<forall>i. 1 \<le> i \<and> i < 256 \<longrightarrow> magnitude (s ! i)"
    and "chroma_total (chroma_accumulate log2f s FREQ_BINS I2S_SAMPLE_RATE) \<noteq> PlusInf"
  shows "length (frame_chroma log2f s) = 12 \<and> (\<forall>x \<in> set (frame_chroma log2f s). magnitude x \<and> f32_val x \<le> 1)"
proof -
  let ?chr = "chroma_accumulate log2f s FREQ_BINS I2S_SAMPLE_RATE"
  have n: "nat FREQ_BINS = 256" by (simp add: FREQ_BINS_def N_FFT_def)
  have len: "length ?chr = 12" by (rule chroma_accumulate_length)
  have mags: "\<forall>x \<in> set ?chr. magnitude x \<or> x = PlusInf"
    by (rule chroma_accumulate_magnitudes) (use assms(1) n in simp)
  from normalised_entries[OF len mags assms(2)]
  have "\<forall>x \<in> set (frame_chroma log2f s). magnitude x \<and> f32_val x \<le> 1"
    by (simp add: frame_chroma_def Let_def)
  moreover have "length (frame_chroma log2f s) = 12"
    by (simp add: frame_chroma_def Let_def len)
  ultimately show ?thesis by simp
qed


section \<open>Properties of the pitch classes\<close>

lemma quant_abs_error:
  assumes "\<bar>x\<bar> < 2 powi k" "- 124 \<le> k"
  shows "\<bar>quant x - x\<bar> \<le> 2 powi (k - 25)"
proof (cases "x = 0")
  case True
  then show ?thesis by (simp add: quant_0)
next
  case False
  have "2 powi (expo x) \<le> \<bar>x\<bar>" using expo_bounds[OF False] by simp
  with assms(1) have lt: "(2::real) powi (expo x) < 2 powi k" by simp
  have "expo x < k"
  proof (rule ccontr)
    assume "\<not> expo x < k"
    then have "(2::real) powi k \<le> 2 powi (expo x)" by (intro power_int_increasing) simp_all
    with lt show False by simp
  qed
  then have "ulp_exp x \<le> k - 24" using assms(2) by (simp add: ulp_exp_def)
  then have "(2::real) powi ulp_exp x \<le> 2 powi (k - 24)" by (intro power_int_increasing) simp_all
  moreover have "(2::real) powi (k - 24) = 2 * 2 powi (k - 25)"
    using power_int_add[of "2::real" "k - 25" 1] by simp
  ultimately have "(2::real) powi ulp_exp x / 2 \<le> 2 powi (k - 25)" by simp
  with quant_error[of x] show ?thesis by linarith
qed

lemma round32_val:
  assumes "\<bar>x\<bar> \<le> 2 ^ 127"
  shows "round32 x = Finite (quant x) \<or> (round32 x = MinusZero \<and> quant x = 0)"
proof -
  have p: "quant (2 powi 127) = 2 powi 127" by (rule quant_pow) simp
  have "quant x \<le> quant (2 powi 127)" using assms by (intro quant_mono) simp
  then have hi: "quant x \<le> 2 ^ 127" using p by simp
  have "quant (- (2 powi 127)) \<le> quant x" using assms by (intro quant_mono) simp
  then have lo: "- (2 ^ 127) \<le> quant x" using p by (simp add: quant_neg)
  from lo hi show ?thesis by (auto simp add: round32_def)
qed

lemma log2_power_bounds:
  assumes q: "0 < qv" and lo: "2 powi a \<le> qv ^ 60" and hi: "qv ^ 60 \<le> 2 powi b"
  shows "real_of_int a \<le> 60 * log 2 qv \<and> 60 * log 2 qv \<le> real_of_int b"
proof -
  have one2: "(1::real) < 2" by simp
  have p: "0 < qv ^ 60" using q by simp
  have e: "log 2 (qv ^ 60) = 60 * log 2 qv" using q by (simp add: log_nat_power)
  have "log 2 (2 powi a) \<le> log 2 (qv ^ 60)"
    using lo by (simp only: log_le_cancel_iff[OF one2 two_powi_pos p])
  then have 1: "real_of_int a \<le> 60 * log 2 qv" by (simp only: log2_powi e)
  have "log 2 (qv ^ 60) \<le> log 2 (2 powi b)"
    using hi by (simp only: log_le_cancel_iff[OF one2 p two_powi_pos])
  then have 2: "60 * log 2 qv \<le> real_of_int b" by (simp only: log2_powi e)
  from 1 2 show ?thesis by simp
qed

text \<open>
  The MIDI note computed from a logarithm that is within 0.001 of the exact one rounds to
  \<open>n\<close> when the exact note is within 0.4 of \<open>n\<close>.
\<close>

lemma midi_class:
  assumes l: "\<bar>l - log 2 qv\<bar> \<le> 1/1000"
    and y: "y = Finite l \<or> (y = MinusZero \<and> l = 0)"
    and q: "0 < qv"
    and lo: "2 powi (5 * n - 347) \<le> qv ^ 60" and hi: "qv ^ 60 \<le> 2 powi (5 * n - 343)"
    and n: "1 \<le> n" "n \<le> 120"
  shows "roundf (f32_val (f32_add (f32_mul (Finite 12) y) (Finite 69))) = n"
proof -
  define L where "L = log 2 qv"
  define N where "N = real_of_int n"
  have b: "real_of_int (5 * n - 347) \<le> 60 * L \<and> 60 * L \<le> real_of_int (5 * n - 343)"
    unfolding L_def by (rule log2_power_bounds[OF q lo hi])
  then have L1: "N - 694/10 \<le> 12 * L" and L2: "12 * L \<le> N - 686/10"
    by (simp_all add: N_def)
  have la: "l - L \<le> 1/1000" "L - l \<le> 1/1000" using l unfolding L_def abs_le_iff by simp_all
  have nb: "1 \<le> N" "N \<le> 120" using n by (simp_all add: N_def)
  have l12: "\<bar>12 * l\<bar> < 2 powi 7"
  proof -
    have "12 * l < 128" "- (12 * l) < 128" using la L1 L2 nb by linarith+
    then show ?thesis by (simp add: abs_less_iff)
  qed
  define pv where "pv = quant (12 * l)"
  have p18: "(2::real) powi (- 18) = 1 / 262144" by (simp add: power_int_minus inverse_eq_divide)
  have p17: "(2::real) powi (- 17) = 1 / 131072" by (simp add: power_int_minus inverse_eq_divide)
  have "\<bar>pv - 12 * l\<bar> \<le> 2 powi (- 18)"
    unfolding pv_def using quant_abs_error[OF l12] by simp
  then have pe: "pv - 12 * l \<le> 1 / 262144" "12 * l - pv \<le> 1 / 262144"
    unfolding p18 abs_le_iff by simp_all
  have mul: "f32_mul (Finite 12) y = Finite pv \<or> (f32_mul (Finite 12) y = MinusZero \<and> pv = 0)"
  proof (cases "l = 0")
    case True
    with y show ?thesis by (auto simp add: f32_mul_def signed_zero_def pv_def quant_0)
  next
    case False
    with y have yl: "y = Finite l" by simp
    have "\<bar>12 * l\<bar> \<le> 2 ^ 127" using l12 by simp
    from round32_val[OF this] show ?thesis
      using False by (simp add: yl f32_mul_def pv_def)
  qed
  have spos: "0 \<le> pv + 69" using pe la L1 L2 nb by linarith
  have s: "\<bar>pv + 69\<bar> < 2 powi 8"
  proof -
    have "pv + 69 < 256" using pe la L1 L2 nb by linarith
    then show ?thesis using spos by simp
  qed
  have "f32_add (f32_mul (Finite 12) y) (Finite 69) = round32 (pv + 69)"
    using mul by (auto simp add: f32_add_def)
  also have "\<dots> = Finite (quant (pv + 69))"
    using spos s by (intro round32_pos) simp_all
  finally have v: "f32_val (f32_add (f32_mul (Finite 12) y) (Finite 69)) = quant (pv + 69)" by simp
  have "\<bar>quant (pv + 69) - (pv + 69)\<bar> \<le> 2 powi (- 17)"
    using quant_abs_error[OF s] by simp
  then have me: "quant (pv + 69) - (pv + 69) \<le> 1 / 131072" "(pv + 69) - quant (pv + 69) \<le> 1 / 131072"
    unfolding p17 abs_le_iff by simp_all
  have c1: "N - 1/2 < quant (pv + 69)" using me pe la L1 by linarith
  have c2: "quant (pv + 69) < N + 1/2" using me pe la L2 by linarith
  have "0 \<le> quant (pv + 69)" using spos by (rule quant_nonneg)
  then have "roundf (quant (pv + 69)) = \<lfloor>quant (pv + 69) + 1/2\<rfloor>" by (simp add: roundf_def)
  also have "\<dots> = n" using c1 c2 unfolding N_def by (intro floor_unique) simp_all
  finally show ?thesis by (simp only: v)
qed

lemma log2f_rounded_class:
  assumes q: "1/8 \<le> qv" "qv \<le> 8"
    and lo: "2 powi (5 * n - 347) \<le> qv ^ 60" and hi: "qv ^ 60 \<le> 2 powi (5 * n - 343)"
    and n: "1 \<le> n" "n \<le> 120"
  shows "roundf (f32_val (f32_add (f32_mul (Finite 12) (log2f_rounded (Finite qv))) (Finite 69))) = n"
proof -
  have qpos: "0 < qv" using q by simp
  have "log 2 (1/8) \<le> log 2 qv" using q by (intro log_mono) simp_all
  moreover have "log 2 (1/8) = - 3"
  proof -
    have "log 2 ((2::real) powi (- 3)) = real_of_int (- 3)" by (rule log2_powi)
    moreover have "(2::real) powi (- 3) = 1/8" by (simp add: power_int_minus inverse_eq_divide)
    ultimately show ?thesis by simp
  qed
  moreover have "log 2 qv \<le> log 2 8" using q qpos by (intro log_mono) simp_all
  moreover have "log 2 (8::real) = 3"
  proof -
    have "log 2 ((2::real) powi 3) = real_of_int 3" by (rule log2_powi)
    then show ?thesis by simp
  qed
  ultimately have Lb: "\<bar>log 2 qv\<bar> < 2 powi 3" by simp
  have e: "\<bar>quant (log 2 qv) - log 2 qv\<bar> \<le> 1/1000"
  proof -
    have "\<bar>quant (log 2 qv) - log 2 qv\<bar> \<le> 2 powi (- 22)"
      using quant_abs_error[OF Lb] by simp
    also have "(2::real) powi (- 22) \<le> 1/1000" by (simp add: power_int_minus inverse_eq_divide)
    finally show ?thesis .
  qed
  have "\<bar>log 2 qv\<bar> \<le> 2 ^ 127" using Lb by simp
  from round32_val[OF this]
  have y: "log2f_rounded (Finite qv) = Finite (quant (log 2 qv))
      \<or> (log2f_rounded (Finite qv) = MinusZero \<and> quant (log 2 qv) = 0)"
    using qpos by (simp add: log2f_rounded_def)
  show ?thesis by (rule midi_class[OF e y qpos lo hi n])
qed


section \<open>The chord recognizer on sample spectra\<close>

lemma bin_freq_main:
  assumes "i < 380"
  shows "bin_freq (int i) I2S_SAMPLE_RATE FREQ_BINS = Finite (real i * 11025 / 128)"
proof -
  have a: "f32_of_int (int i) = Finite (real i)"
    using assms f32_of_int_small[of "int i"] by simp
  have b: "f32_of_int 44100 = Finite 44100" "f32_of_int 256 = Finite 256"
    using f32_of_int_small[of 44100] f32_of_int_small[of 256] by simp_all
  have "\<bar>int i * 44100\<bar> < 2 ^ 24" using assms by simp
  from round32_int[OF this] have c: "round32 (real i * 44100) = Finite (real i * 44100)" by simp
  have r: "round32 (real_of_int (int i * 11025) * 2 powi (- 7)) = Finite (real_of_int (int i * 11025) * 2 powi (- 7))"
    by (rule round32_repr[where m="int i * 11025" and e="- 7"]) (use assms in simp_all)
  have e1: "real_of_int (int i * 11025) * 2 powi (- 7) = real i * 11025 / 128"
    by (simp add: power_int_minus)
  have d: "round32 (11025 * real i / 128) = Finite (real i * 11025 / 128)"
    using r unfolding e1 by (simp add: mult.commute)
  show ?thesis
    by (simp add: bin_freq_def I2S_SAMPLE_RATE_def FREQ_BINS_def N_FFT_def a b f32_mul_Finite c
          f32_eval f32_div_Finite d)
qed

lemma pitch_class_eval:
  assumes d: "round32 (fr / 440) = Finite qv" and q: "1/8 \<le> qv" "qv \<le> 8"
    and lo: "2 powi (5 * n - 347) \<le> qv ^ 60" and hi: "qv ^ 60 \<le> 2 powi (5 * n - 343)"
    and n: "1 \<le> n" "n \<le> 120" and fr: "0 \<le> fr"
  shows "pitch_class log2f_rounded (Finite fr) = n mod 12"
proof -
  have "f32_div (Finite fr) (Finite 440) = Finite qv" using fr d by (simp add: f32_div_Finite)
  then have "roundf (f32_val (midi_note log2f_rounded (Finite fr))) = n"
    using log2f_rounded_class[OF q lo hi n] by (simp add: midi_note_def)
  moreover have "c_mod n 12 = n mod 12" using n by (simp add: c_mod_def sgn_if)
  ultimately show ?thesis by (simp add: pitch_class_def Let_def)
qed

lemma pitch_bin_2: "pitch_class log2f_rounded (Finite (11025 / 64)) = 5"
proof -
  have d: "round32 (11025 / 64 / 440) = Finite (13136989 / 33554432)"
    by (subst round32_at[where e="-2"]) (simp_all add: rne_def power_int_minus)
  have "pitch_class log2f_rounded (Finite (11025 / 64)) = 53 mod 12"
    by (rule pitch_class_eval[OF d]) (simp_all add: power_int_minus power_divide)
  then show ?thesis by simp
qed

lemma chroma_step_2:
  "chroma_step log2f_rounded s FREQ_BINS I2S_SAMPLE_RATE 2 chr = chr[5 := f32_add (chr ! 5) (s ! 2)]"
  using bin_freq_main[of 2] pitch_bin_2 by (simp add: chroma_step_def f32_eval)

lemma pitch_bin_3: "pitch_class log2f_rounded (Finite (33075 / 128)) = 0"
proof -
  have d: "round32 (33075 / 128 / 440) = Finite (4926371 / 8388608)"
    by (subst round32_at[where e="-1"]) (simp_all add: rne_def power_int_minus)
  have "pitch_class log2f_rounded (Finite (33075 / 128)) = 60 mod 12"
    by (rule pitch_class_eval[OF d]) (simp_all add: power_int_minus power_divide)
  then show ?thesis by simp
qed

lemma chroma_step_3:
  "chroma_step log2f_rounded s FREQ_BINS I2S_SAMPLE_RATE 3 chr = chr[0 := f32_add (chr ! 0) (s ! 3)]"
  using bin_freq_main[of 3] pitch_bin_3 by (simp add: chroma_step_def f32_eval)

lemma pitch_bin_5: "pitch_class log2f_rounded (Finite (55125 / 128)) = 9"
proof -
  have d: "round32 (55125 / 128 / 440) = Finite (4105309 / 4194304)"
    by (subst round32_at[where e="-1"]) (simp_all add: rne_def power_int_minus)
  have "pitch_class log2f_rounded (Finite (55125 / 128)) = 69 mod 12"
    by (rule pitch_class_eval[OF d]) (simp_all add: power_int_minus power_divide)
  then show ?thesis by simp
qed

lemma chroma_step_5:
  "chroma_step log2f_rounded s FREQ_BINS I2S_SAMPLE_RATE 5 chr = chr[9 := f32_add (chr ! 9) (s ! 5)]"
  using bin_freq_main[of 5] pitch_bin_5 by (simp add: chroma_step_def f32_eval)

lemma pitch_bin_9: "pitch_class log2f_rounded (Finite (99225 / 128)) = 7"
proof -
  have d: "round32 (99225 / 128 / 440) = Finite (14779113 / 8388608)"
    by (subst round32_at[where e=0]) (simp_all add: rne_def power_int_minus)
  have "pitch_class log2f_rounded (Finite (99225 / 128)) = 79 mod 12"
    by (rule pitch_class_eval[OF d]) (simp_all add: power_int_minus power_divide)
  then show ?thesis by simp
qed

lemma chroma_step_9:
  "chroma_step log2f_rounded s FREQ_BINS I2S_SAMPLE_RATE 9 chr = chr[7 := f32_add (chr ! 7) (s ! 9)]"
  using bin_freq_main[of 9] pitch_bin_9 by (simp add: chroma_step_def f32_eval)

lemma pitch_bin_11: "pitch_class log2f_rounded (Finite (121275 / 128)) = 10"
proof -
  have d: "round32 (121275 / 128 / 440) = Finite (2205 / 1024)"
    by (subst round32_at[where e=1]) (simp_all add: rne_def power_int_minus)
  have "pitch_class log2f_rounded (Finite (121275 / 128)) = 82 mod 12"
    by (rule pitch_class_eval[OF d]) (simp_all add: power_int_minus power_divide)
  then show ?thesis by simp
qed

lemma chroma_step_11:
  "chroma_step log2f_rounded s FREQ_BINS I2S_SAMPLE_RATE 11 chr = chr[10 := f32_add (chr ! 10) (s ! 11)]"
  using bin_freq_main[of 11] pitch_bin_11 by (simp add: chroma_step_def f32_eval)

lemma pitch_bin_15: "pitch_class log2f_rounded (Finite (165375 / 128)) = 4"
proof -
  have d: "round32 (165375 / 128 / 440) = Finite (12315927 / 4194304)"
    by (subst round32_at[where e=1]) (simp_all add: rne_def power_int_minus)
  have "pitch_class log2f_rounded (Finite (165375 / 128)) = 88 mod 12"
    by (rule pitch_class_eval[OF d]) (simp_all add: power_int_minus power_divide)
  then show ?thesis by simp
qed

lemma chroma_step_15:
  "chroma_step log2f_rounded s FREQ_BINS I2S_SAMPLE_RATE 15 chr = chr[4 := f32_add (chr ! 4) (s ! 15)]"
  using bin_freq_main[of 15] pitch_bin_15 by (simp add: chroma_step_def f32_eval)

lemma pitch_bin_17: "pitch_class log2f_rounded (Finite (187425 / 128)) = 6"
proof -
  have d: "round32 (187425 / 128 / 440) = Finite (13958051 / 4194304)"
    by (subst round32_at[where e=1]) (simp_all add: rne_def power_int_minus)
  have "pitch_class log2f_rounded (Finite (187425 / 128)) = 90 mod 12"
    by (rule pitch_class_eval[OF d]) (simp_all add: power_int_minus power_divide)
  then show ?thesis by simp
qed

lemma chroma_step_17:
  "chroma_step log2f_rounded s FREQ_BINS I2S_SAMPLE_RATE 17 chr = chr[6 := f32_add (chr ! 6) (s ! 17)]"
  using bin_freq_main[of 17] pitch_bin_17 by (simp add: chroma_step_def f32_eval)

lemma pitch_bin_19: "pitch_class log2f_rounded (Finite (209475 / 128)) = 8"
proof -
  have d: "round32 (209475 / 128 / 440) = Finite (15600175 / 4194304)"
    by (subst round32_at[where e=1]) (simp_all add: rne_def power_int_minus)
  have "pitch_class log2f_rounded (Finite (209475 / 128)) = 92 mod 12"
    by (rule pitch_class_eval[OF d]) (simp_all add: power_int_minus power_divide)
  then show ?thesis by simp
qed

lemma chroma_step_19:
  "chroma_step log2f_rounded s FREQ_BINS I2S_SAMPLE_RATE 19 chr = chr[8 := f32_add (chr ! 8) (s ! 19)]"
  using bin_freq_main[of 19] pitch_bin_19 by (simp add: chroma_step_def f32_eval)

lemma pitch_bin_23: "pitch_class log2f_rounded (Finite (253575 / 128)) = 11"
proof -
  have d: "round32 (253575 / 128 / 440) = Finite (9442211 / 2097152)"
    by (subst round32_at[where e=2]) (simp_all add: rne_def power_int_minus)
  have "pitch_class log2f_rounded (Finite (253575 / 128)) = 95 mod 12"
    by (rule pitch_class_eval[OF d]) (simp_all add: power_int_minus power_divide)
  then show ?thesis by simp
qed

lemma chroma_step_23:
  "chroma_step log2f_rounded s FREQ_BINS I2S_SAMPLE_RATE 23 chr = chr[11 := f32_add (chr ! 11) (s ! 23)]"
  using bin_freq_main[of 23] pitch_bin_23 by (simp add: chroma_step_def f32_eval)

lemma chroma_step_zero:
  assumes "length chr = 12" "\<forall>x \<in> set chr. f32_add x (Finite 0) = x" "s ! i = Finite 0"
  shows "chroma_step log2f s sz srate i chr = chr"
proof -
  have "nat (pitch_class log2f fr) < 12" for fr
    using pitch_class_range[of log2f fr] by linarith
  then have "f32_add (chr ! nat (pitch_class log2f fr)) (Finite 0) = chr ! nat (pitch_class log2f fr)" for fr
    using assms(1,2) by simp
  then show ?thesis using assms(3) by (simp add: chroma_step_def Let_def)
qed

lemma chroma_skip:
  assumes "length chr = 12" "\<forall>x \<in> set chr. f32_add x (Finite 0) = x"
    "\<forall>i. a \<le> i \<and> i < b \<longrightarrow> s ! i = Finite 0"
  shows "fold (chroma_step log2f s sz srate) [a..<b] chr = chr"
  using assms(3)
proof (induction b)
  case 0 then show ?case by simp
next
  case (Suc b)
  show ?case
  proof (cases "a \<le> b")
    case True
    then have "fold (chroma_step log2f s sz srate) [a..<Suc b] chr
        = chroma_step log2f s sz srate b (fold (chroma_step log2f s sz srate) [a..<b] chr)"
      by simp
    also have "fold (chroma_step log2f s sz srate) [a..<b] chr = chr" using Suc by simp
    also have "chroma_step log2f s sz srate b chr = chr"
      using True Suc.prems by (intro chroma_step_zero assms(1,2)) simp
    finally show ?thesis .
  next
    case False then show ?thesis by simp
  qed
qed

lemma fold_upt_split:
  "a \<le> m \<Longrightarrow> m < b \<Longrightarrow> fold f [a..<b] c = fold f [Suc m..<b] (f m (fold f [a..<m] c))"
proof -
  assume a: "a \<le> m" "m < b"
  have "[a..<m + (b - m)] = [a..<m] @ [m..<m + (b - m)]"
    using a(1) by (rule upt_add_eq_append)
  then have "[a..<b] = [a..<m] @ [m..<b]" using a(2) by simp
  also have "[m..<b] = m # [Suc m..<b]" using a by (simp add: upt_conv_Cons)
  finally show ?thesis by simp
qed

lemma tone_spectrum_nth:
  "i < 256 \<Longrightarrow> tone_spectrum bins ! i = (if i \<in> set bins then Finite 1 else Finite 0)"
  by (simp add: tone_spectrum_def)

lemma tone_skip:
  assumes "length chr = 12" "set chr \<subseteq> {Finite 0, Finite 1}"
    "\<forall>i. a \<le> i \<and> i < b \<longrightarrow> i \<notin> set bins" "b \<le> 256"
  shows "fold (chroma_step log2f (tone_spectrum bins) sz srate) [a..<b] chr = chr"
proof (rule chroma_skip[OF assms(1)])
  show "\<forall>x \<in> set chr. f32_add x (Finite 0) = x"
    using assms(2) by (auto simp add: f32_eval)
  show "\<forall>i. a \<le> i \<and> i < b \<longrightarrow> tone_spectrum bins ! i = Finite 0"
    using assms(3,4) by (simp add: tone_spectrum_nth)
qed

lemma c_major_accumulate:
  "chroma_accumulate log2f_rounded (tone_spectrum [3, 9, 15]) FREQ_BINS I2S_SAMPLE_RATE
     = [Finite 1, Finite 0, Finite 0, Finite 0, Finite 1, Finite 0,
        Finite 0, Finite 1, Finite 0, Finite 0, Finite 0, Finite 0]"
proof -
  let ?s = "tone_spectrum [3, 9, 15]"
  let ?f = "chroma_step log2f_rounded ?s FREQ_BINS I2S_SAMPLE_RATE"
  let ?c0 = "replicate 12 (Finite 0)"
  have n: "nat FREQ_BINS = 256" by (simp add: FREQ_BINS_def N_FFT_def)
  have r: "replicate 12 (Finite 0) = [Finite 0, Finite 0, Finite 0, Finite 0, Finite 0, Finite 0,
        Finite 0, Finite 0, Finite 0, Finite 0, Finite 0, Finite 0]"
    by (simp add: eval_nat_numeral)
  have "fold ?f [1..<256] ?c0 = fold ?f [Suc 3..<256] (?f 3 (fold ?f [1..<3] ?c0))"
    by (rule fold_upt_split) simp_all
  also have "fold ?f [1..<3] ?c0 = ?c0" by (rule tone_skip) auto
  also have "?f 3 ?c0 = [Finite 1, Finite 0, Finite 0, Finite 0, Finite 0, Finite 0,
        Finite 0, Finite 0, Finite 0, Finite 0, Finite 0, Finite 0]" (is "_ = ?c1")
    by (simp add: chroma_step_3 r tone_spectrum_nth f32_eval)
  also have "fold ?f [Suc 3..<256] ?c1 = fold ?f [Suc 9..<256] (?f 9 (fold ?f [Suc 3..<9] ?c1))"
    by (rule fold_upt_split) simp_all
  also have "fold ?f [Suc 3..<9] ?c1 = ?c1" by (rule tone_skip) auto
  also have "?f 9 ?c1 = [Finite 1, Finite 0, Finite 0, Finite 0, Finite 0, Finite 0,
        Finite 0, Finite 1, Finite 0, Finite 0, Finite 0, Finite 0]" (is "_ = ?c2")
    by (simp add: chroma_step_9 tone_spectrum_nth f32_eval)
  also have "fold ?f [Suc 9..<256] ?c2 = fold ?f [Suc 15..<256] (?f 15 (fold ?f [Suc 9..<15] ?c2))"
    by (rule fold_upt_split) simp_all
  also have "fold ?f [Suc 9..<15] ?c2 = ?c2" by (rule tone_skip) auto
  also have "?f 15 ?c2 = [Finite 1, Finite 0, Finite 0, Finite 0, Finite 1, Finite 0,
        Finite 0, Finite 1, Finite 0, Finite 0, Finite 0, Finite 0]" (is "_ = ?c3")
    by (simp add: chroma_step_15 tone_spectrum_nth f32_eval)
  also have "fold ?f [Suc 15..<256] ?c3 = ?c3" by (rule tone_skip) auto
  finally show ?thesis by (simp add: chroma_accumulate_def n)
qed

lemma spread_accumulate:
  "chroma_accumulate log2f_rounded (tone_spectrum [2, 5, 9, 11, 17, 19, 23]) FREQ_BINS I2S_SAMPLE_RATE
     = [Finite 0, Finite 0, Finite 0, Finite 0, Finite 0, Finite 1,
        Finite 1, Finite 1, Finite 1, Finite 1, Finite 1, Finite 1]"
proof -
  let ?s = "tone_spectrum [2, 5, 9, 11, 17, 19, 23]"
  let ?f = "chroma_step log2f_rounded ?s FREQ_BINS I2S_SAMPLE_RATE"
  let ?c0 = "replicate 12 (Finite 0)"
  have n: "nat FREQ_BINS = 256" by (simp add: FREQ_BINS_def N_FFT_def)
  have r: "replicate 12 (Finite 0) = [Finite 0, Finite 0, Finite 0, Finite 0, Finite 0, Finite 0,
        Finite 0, Finite 0, Finite 0, Finite 0, Finite 0, Finite 0]"
    by (simp add: eval_nat_numeral)
  have "fold ?f [1..<256] ?c0 = fold ?f [Suc 2..<256] (?f 2 (fold ?f [1..<2] ?c0))"
    by (rule fold_upt_split) simp_all
  also have "fold ?f [1..<2] ?c0 = ?c0" by (rule tone_skip) auto
  also have "?f 2 ?c0 = [Finite 0, Finite 0, Finite 0, Finite 0, Finite 0, Finite 1,
        Finite 0, Finite 0, Finite 0, Finite 0, Finite 0, Finite 0]" (is "_ = ?c1")
    by (simp add: chroma_step_2 r tone_spectrum_nth f32_eval)
  also have "fold ?f [Suc 2..<256] ?c1 = fold ?f [Suc 5..<256] (?f 5 (fold ?f [Suc 2..<5] ?c1))"
    by (rule fold_upt_split) simp_all
  also have "fold ?f [Suc 2..<5] ?c1 = ?c1" by (rule tone_skip) auto
  also have "?f 5 ?c1 = [Finite 0, Finite 0, Finite 0, Finite 0, Finite 0, Finite 1,
        Finite 0, Finite 0, Finite 0, Finite 1, Finite 0, Finite 0]" (is "_ = ?c2")
    by (simp add: chroma_step_5 tone_spectrum_nth f32_eval)
  also have "fold ?f [Suc 5..<256] ?c2 = fold ?f [Suc 9..<256] (?f 9 (fold ?f [Suc 5..<9] ?c2))"
    by (rule fold_upt_split) simp_all
  also have "fold ?f [Suc 5..<9] ?c2 = ?c2" by (rule tone_skip) auto
  also have "?f 9 ?c2 = [Finite 0, Finite 0, Finite 0, Finite 0, Finite 0, Finite 1,
        Finite 0, Finite 1, Finite 0, Finite 1, Finite 0, Finite 0]" (is "_ = ?c3")
    by (simp add: chroma_step_9 tone_spectrum_nth f32_eval)
  also have "fold ?f [Suc 9..<256] ?c3 = fold ?f [Suc 11..<256] (?f 11 (fold ?f [Suc 9..<11] ?c3))"
    by (rule fold_upt_split) simp_all
  also have "fold ?f [Suc 9..<11] ?c3 = ?c3" by (rule tone_skip) auto
  also have "?f 11 ?c3 = [Finite 0, Finite 0, Finite 0, Finite 0, Finite 0, Finite 1,
        Finite 0, Finite 1, Finite 0, Finite 1, Finite 1, Finite 0]" (is "_ = ?c4")
    by (simp add: chroma_step_11 tone_spectrum_nth f32_eval)
  also have "fold ?f [Suc 11..<256] ?c4 = fold ?f [Suc 17..<256] (?f 17 (fold ?f [Suc 11..<17] ?c4))"
    by (rule fold_upt_split) simp_all
  also have "fold ?f [Suc 11..<17] ?c4 = ?c4" by (rule tone_skip) auto
  also have "?f 17 ?c4 = [Finite 0, Finite 0, Finite 0, Finite 0, Finite 0, Finite 1,
        Finite 1, Finite 1, Finite 0, Finite 1, Finite 1, Finite 0]" (is "_ = ?c5")
    by (simp add: chroma_step_17 tone_spectrum_nth f32_eval)
  also have "fold ?f [Suc 17..<256] ?c5 = fold ?f [Suc 19..<256] (?f 19 (fold ?f [Suc 17..<19] ?c5))"
    by (rule fold_upt_split) simp_all
  also have "fold ?f [Suc 17..<19] ?c5 = ?c5" by (rule tone_skip) auto
  also have "?f 19 ?c5 = [Finite 0, Finite 0, Finite 0, Finite 0, Finite 0, Finite 1,
        Finite 1, Finite 1, Finite 1, Finite 1, Finite 1, Finite 0]" (is "_ = ?c6")
    by (simp add: chroma_step_19 tone_spectrum_nth f32_eval)
  also have "fold ?f [Suc 19..<256] ?c6 = fold ?f [Suc 23..<256] (?f 23 (fold ?f [Suc 19..<23] ?c6))"
    by (rule fold_upt_split) simp_all
  also have "fold ?f [Suc 19..<23] ?c6 = ?c6" by (rule tone_skip) auto
  also have "?f 23 ?c6 = [Finite 0, Finite 0, Finite 0, Finite 0, Finite 0, Finite 1,
        Finite 1, Finite 1, Finite 1, Finite 1, Finite 1, Finite 1]" (is "_ = ?c7")
    by (simp add: chroma_step_23 tone_spectrum_nth f32_eval)
  also have "fold ?f [Suc 23..<256] ?c7 = ?c7" by (rule tone_skip) auto
  finally show ?thesis by (simp add: chroma_accumulate_def n)
qed

text \<open>The literal \<^verbatim>\<open>0.3f\<close>.\<close>

lemma literal_0_3f: "round32 (3/10) = Finite (5033165 / 16777216)"
  by (subst round32_at[where e="-2"]) (simp_all add: rne_def power_int_minus)

lemma upt12: "[0..<12] = [0, 1, 2, 3, 4, 5, 6, 7, 8, 9, 10, 11]"
  by (simp add: upt_rec)

lemma upt24: "[0..<24] = [0, 1, 2, 3, 4, 5, 6, 7, 8, 9, 10, 11, 12, 13, 14, 15, 16, 17, 18, 19, 20, 21, 22, 23]"
  by (simp add: upt_rec)

lemma third_rounded: "round32 (1 / 3) = Finite (11184811 / 33554432)"
  by (subst round32_at[where e="-2"]) (simp_all add: rne_def power_int_minus)

lemma seventh_rounded: "round32 (1 / 7) = Finite (9586981 / 67108864)"
  by (subst round32_at[where e="-3"]) (simp_all add: rne_def power_int_minus)

lemma c_major_frame:
  assumes "chroma_accumulate log2f s FREQ_BINS I2S_SAMPLE_RATE
     = [Finite 1, Finite 0, Finite 0, Finite 0, Finite 1, Finite 0,
        Finite 0, Finite 1, Finite 0, Finite 0, Finite 0, Finite 0]"
  shows "chroma_total (chroma_accumulate log2f s FREQ_BINS I2S_SAMPLE_RATE) = Finite 3
    \<and> frame_chroma log2f s
       = [Finite (11184811 / 33554432), Finite 0, Finite 0, Finite 0, Finite (11184811 / 33554432),
          Finite 0, Finite 0, Finite (11184811 / 33554432), Finite 0, Finite 0, Finite 0, Finite 0]"
proof -
  have t: "chroma_total (chroma_accumulate log2f s FREQ_BINS I2S_SAMPLE_RATE) = Finite 3"
    by (simp add: assms chroma_total_list f32_eval)
  show ?thesis
    by (simp add: frame_chroma_def assms[symmetric] t Let_def f32_eval)
       (simp add: assms f32_div_Finite f32_eval third_rounded)
qed

lemma spread_frame:
  "chroma_total (chroma_accumulate log2f_rounded (tone_spectrum [2, 5, 9, 11, 17, 19, 23]) FREQ_BINS I2S_SAMPLE_RATE)
     = Finite 7
   \<and> frame_chroma log2f_rounded (tone_spectrum [2, 5, 9, 11, 17, 19, 23])
       = [Finite 0, Finite 0, Finite 0, Finite 0, Finite 0, Finite (9586981 / 67108864),
          Finite (9586981 / 67108864), Finite (9586981 / 67108864), Finite (9586981 / 67108864),
          Finite (9586981 / 67108864), Finite (9586981 / 67108864), Finite (9586981 / 67108864)]"
proof -
  have t: "chroma_total (chroma_accumulate log2f_rounded (tone_spectrum [2, 5, 9, 11, 17, 19, 23]) FREQ_BINS I2S_SAMPLE_RATE)
     = Finite 7"
    by (simp add: spread_accumulate chroma_total_list f32_eval)
  show ?thesis
    by (simp add: frame_chroma_def t Let_def f32_eval)
       (simp add: spread_accumulate f32_div_Finite f32_eval seventh_rounded)
qed


lemma c_major_match:
  "match_templates
     [Finite (11184811 / 33554432), Finite 0, Finite 0, Finite 0, Finite (11184811 / 33554432),
      Finite 0, Finite 0, Finite (11184811 / 33554432), Finite 0, Finite 0, Finite 0, Finite 0]
   = (Finite 1, 0)"
proof -
  have r1: "round32 (11184811 / 33554432) = Finite (11184811 / 33554432)"
    by (rule round32_repr[where m=11184811 and e="-25"]) (simp_all add: power_int_minus)
  have r2: "round32 (11184811 / 16777216) = Finite (11184811 / 16777216)"
    by (rule round32_repr[where m=11184811 and e="-24"]) (simp_all add: power_int_minus)
  have r3: "round32 (33554433 / 33554432) = Finite 1"
    by (subst round32_at[where e=0]) (simp_all add: rne_def power_int_minus)
  show ?thesis
    by (simp add: match_templates_def CHORD_TEMPLATES_def upt24 match_step_def correlation_def
          upt12 chord_templates_def f32_mul_Finite f32_eval r1 r2 r3)
qed

lemma spread_match:
  "match_templates
     [Finite 0, Finite 0, Finite 0, Finite 0, Finite 0, Finite (9586981 / 67108864),
      Finite (9586981 / 67108864), Finite (9586981 / 67108864), Finite (9586981 / 67108864),
      Finite (9586981 / 67108864), Finite (9586981 / 67108864), Finite (9586981 / 67108864)]
   = (Finite (9586981 / 33554432), 1)"
proof -
  have r1: "round32 (9586981 / 67108864) = Finite (9586981 / 67108864)"
    by (rule round32_repr[where m=9586981 and e="-26"]) (simp_all add: power_int_minus)
  have r2: "round32 (9586981 / 33554432) = Finite (9586981 / 33554432)"
    by (rule round32_repr[where m=9586981 and e="-25"]) (simp_all add: power_int_minus)
  show ?thesis
    by (simp add: match_templates_def CHORD_TEMPLATES_def upt24 match_step_def correlation_def
          upt12 chord_templates_def f32_mul_Finite f32_eval r1 r2)
qed

lemma tone_magnitudes: "i < 256 \<Longrightarrow> magnitude (tone_spectrum bins ! i)"
proof -
  assume "i < 256"
  moreover have "quant 1 = 1" by (rule quant_1)
  ultimately show ?thesis by (simp add: tone_spectrum_nth quant_0)
qed

text \<open>
  Claim C4, as stated, fails on the code.  Seven equal tones on the pitch classes F to B
  give every template a dot product of at most two sevenths; the first template that
  reaches it is number 1 (C sharp major).  The recognizer selects it and reports nothing:
  the root note stays 0, as the previous estimate had it, not 1.
\<close>

theorem chord_report_counterexample:
  "match_templates (frame_chroma log2f_rounded (tone_spectrum [2, 5, 9, 11, 17, 19, 23]))
     = (Finite (9586981 / 33554432), 1)
   \<and> root_note (analyze_chords log2f_rounded (tone_spectrum [2, 5, 9, 11, 17, 19, 23]) silent_chord) = 0
   \<and> chord_confidence (analyze_chords log2f_rounded (tone_spectrum [2, 5, 9, 11, 17, 19, 23]) silent_chord)
       = Finite 0"
  by (simp add: analyze_chords_fields spread_frame spread_match literal_0_3f f32_eval)
     (simp add: silent_chord_def)

text \<open>
  Claim C4, amended.  On a spectrum of magnitudes whose accumulated chroma total does not
  overflow, the template loop of \<^verbatim>\<open>analyze_chords\<close> selects the template whose float dot
  product with the normalised chroma (products and sums rounded, added in index order) is
  maximal, the lowest index among equal maxima, and keeps that dot product as the score.
  The root note (the index modulo 12), the chord type (minor exactly for an index of 12 or
  more) and the confidence are written only when the score is greater than \<^verbatim>\<open>0.3f\<close>;
  otherwise they keep their previous values.  When the accumulated chroma equals the C major
  template the result is root note 0, major, confidence 1.
\<close>

theorem chord_selection:
  "((\<forall>i. 1 \<le> i \<and> i < 256 \<longrightarrow> magnitude (s ! i))
     \<and> chroma_total (chroma_accumulate log2f s FREQ_BINS I2S_SAMPLE_RATE) \<noteq> PlusInf \<longrightarrow>
      snd (match_templates (frame_chroma log2f s)) < 24
    \<and> fst (match_templates (frame_chroma log2f s))
        = correlation (frame_chroma log2f s) (snd (match_templates (frame_chroma log2f s)))
    \<and> (\<forall>c < 24. \<not> f32_gt (correlation (frame_chroma log2f s) c)
                       (fst (match_templates (frame_chroma log2f s))))
    \<and> (\<forall>c < snd (match_templates (frame_chroma log2f s)).
          f32_gt (fst (match_templates (frame_chroma log2f s)))
                 (correlation (frame_chroma log2f s) c)))
   \<and> (f32_gt (fst (match_templates (frame_chroma log2f s))) (round32 (3/10)) \<longrightarrow>
          root_note (analyze_chords log2f s cc) = int (snd (match_templates (frame_chroma log2f s))) mod 12
        \<and> chord_type (analyze_chords log2f s cc)
            = (if snd (match_templates (frame_chroma log2f s)) \<ge> 12 then 1 else 0)
        \<and> chord_confidence (analyze_chords log2f s cc) = fst (match_templates (frame_chroma log2f s)))
   \<and> (\<not> f32_gt (fst (match_templates (frame_chroma log2f s))) (round32 (3/10)) \<longrightarrow>
          root_note (analyze_chords log2f s cc) = root_note cc
        \<and> chord_type (analyze_chords log2f s cc) = chord_type cc
        \<and> chord_confidence (analyze_chords log2f s cc) = chord_confidence cc)
   \<and> (chroma_accumulate log2f s FREQ_BINS I2S_SAMPLE_RATE
         = [Finite 1, Finite 0, Finite 0, Finite 0, Finite 1, Finite 0,
            Finite 0, Finite 1, Finite 0, Finite 0, Finite 0, Finite 0] \<longrightarrow>
        root_note (analyze_chords log2f s cc) = 0 \<and> chord_type (analyze_chords log2f s cc) = 0
        \<and> chord_confidence (analyze_chords log2f s cc) = Finite 1)"
proof (intro conjI impI)
  assume a: "(\<forall>i. 1 \<le> i \<and> i < 256 \<longrightarrow> magnitude (s ! i))
     \<and> chroma_total (chroma_accumulate log2f s FREQ_BINS I2S_SAMPLE_RATE) \<noteq> PlusInf"
  then have "length (frame_chroma log2f s) = 12" "\<forall>x \<in> set (frame_chroma log2f s). magnitude x"
    using frame_chroma_entries[of s log2f] by simp_all
  from match_templates_best[OF this]
  have b: "snd (match_templates (frame_chroma log2f s)) < 24"
    "fst (match_templates (frame_chroma log2f s))
       = correlation (frame_chroma log2f s) (snd (match_templates (frame_chroma log2f s)))"
    "\<forall>c < 24. \<not> f32_gt (correlation (frame_chroma log2f s) c)
        (correlation (frame_chroma log2f s) (snd (match_templates (frame_chroma log2f s))))"
    "\<forall>c < snd (match_templates (frame_chroma log2f s)).
        f32_gt (correlation (frame_chroma log2f s) (snd (match_templates (frame_chroma log2f s))))
          (correlation (frame_chroma log2f s) c)"
    by simp_all
  show "snd (match_templates (frame_chroma log2f s)) < 24" by (rule b(1))
  show "fst (match_templates (frame_chroma log2f s))
        = correlation (frame_chroma log2f s) (snd (match_templates (frame_chroma log2f s)))"
    by (rule b(2))
  show "\<forall>c < 24. \<not> f32_gt (correlation (frame_chroma log2f s) c)
                       (fst (match_templates (frame_chroma log2f s)))"
    using b(3) by (simp only: b(2))
  show "\<forall>c < snd (match_templates (frame_chroma log2f s)).
          f32_gt (fst (match_templates (frame_chroma log2f s)))
                 (correlation (frame_chroma log2f s) c)"
    using b(4) by (simp only: b(2))
next
  assume "f32_gt (fst (match_templates (frame_chroma log2f s))) (round32 (3/10))"
  then show "root_note (analyze_chords log2f s cc) = int (snd (match_templates (frame_chroma log2f s))) mod 12"
    "chord_type (analyze_chords log2f s cc) = (if snd (match_templates (frame_chroma log2f s)) \<ge> 12 then 1 else 0)"
    "chord_confidence (analyze_chords log2f s cc) = fst (match_templates (frame_chroma log2f s))"
    by (simp_all only: analyze_chords_fields if_True)
next
  assume "\<not> f32_gt (fst (match_templates (frame_chroma log2f s))) (round32 (3/10))"
  then show "root_note (analyze_chords log2f s cc) = root_note cc"
    "chord_type (analyze_chords log2f s cc) = chord_type cc"
    "chord_confidence (analyze_chords log2f s cc) = chord_confidence cc"
    by (simp_all only: analyze_chords_fields if_False)
next
  assume "chroma_accumulate log2f s FREQ_BINS I2S_SAMPLE_RATE
         = [Finite 1, Finite 0, Finite 0, Finite 0, Finite 1, Finite 0,
            Finite 0, Finite 1, Finite 0, Finite 0, Finite 0, Finite 0]"
  from c_major_frame[OF this] have "match_templates (frame_chroma log2f s) = (Finite 1, 0)"
    by (simp only: c_major_match)
  then show "root_note (analyze_chords log2f s cc) = 0" "chord_type (analyze_chords log2f s cc) = 0"
    "chord_confidence (analyze_chords log2f s cc) = Finite 1"
    by (simp_all add: analyze_chords_fields literal_0_3f f32_eval)
qed

theorem chord_selection_witness:
  "magnitude (tone_spectrum [3, 9, 15] ! 3) \<and> magnitude (tone_spectrum [3, 9, 15] ! 4)
   \<and> chroma_total (chroma_accumulate log2f_rounded (tone_spectrum [3, 9, 15]) FREQ_BINS I2S_SAMPLE_RATE)
       = Finite 3
   \<and> chroma_accumulate log2f_rounded (tone_spectrum [3, 9, 15]) FREQ_BINS I2S_SAMPLE_RATE
       = [Finite 1, Finite 0, Finite 0, Finite 0, Finite 1, Finite 0,
          Finite 0, Finite 1, Finite 0, Finite 0, Finite 0, Finite 0]
   \<and> root_note (analyze_chords log2f_rounded (tone_spectrum [3, 9, 15]) silent_chord) = 0
   \<and> chord_type (analyze_chords log2f_rounded (tone_spectrum [3, 9, 15]) silent_chord) = 0
   \<and> chord_confidence (analyze_chords log2f_rounded (tone_spectrum [3, 9, 15]) silent_chord) = Finite 1
   \<and> snd (match_templates (frame_chroma log2f_rounded (tone_spectrum [3, 9, 15]))) < 24
   \<and> fst (match_templates (frame_chroma log2f_rounded (tone_spectrum [3, 9, 15])))
       = correlation (frame_chroma log2f_rounded (tone_spectrum [3, 9, 15]))
           (snd (match_templates (frame_chroma log2f_rounded (tone_spectrum [3, 9, 15]))))"
proof -
  let ?s = "tone_spectrum [3, 9, 15]"
  note inst = chord_selection[of ?s log2f_rounded silent_chord]
  have m: "\<forall>i. 1 \<le> i \<and> i < 256 \<longrightarrow> magnitude (?s ! i)" using tone_magnitudes by simp
  have m3: "magnitude (?s ! 3) \<and> magnitude (?s ! 4)" using tone_magnitudes by simp
  have t: "chroma_total (chroma_accumulate log2f_rounded ?s FREQ_BINS I2S_SAMPLE_RATE) = Finite 3"
    using c_major_frame[OF c_major_accumulate] by simp
  then have t': "chroma_total (chroma_accumulate log2f_rounded ?s FREQ_BINS I2S_SAMPLE_RATE) \<noteq> PlusInf"
    by simp
  from inst c_major_accumulate
  have a: "root_note (analyze_chords log2f_rounded ?s silent_chord) = 0
     \<and> chord_type (analyze_chords log2f_rounded ?s silent_chord) = 0
     \<and> chord_confidence (analyze_chords log2f_rounded ?s silent_chord) = Finite 1"
    by blast
  from inst m t'
  have b: "snd (match_templates (frame_chroma log2f_rounded ?s)) < 24
     \<and> fst (match_templates (frame_chroma log2f_rounded ?s))
        = correlation (frame_chroma log2f_rounded ?s)
            (snd (match_templates (frame_chroma log2f_rounded ?s)))"
    by blast
  from m3 t c_major_accumulate a b show ?thesis by blast
qed

text \<open>
  Claim C9, as stated, fails on the code.  Seven equal tones on the pitch classes F to B
  give a winning correlation of about 0.2857, below the threshold, and the chroma snapshot
  of the global chord is overwritten all the same.
\<close>

theorem chord_update_counterexample:
  "fst (match_templates (frame_chroma log2f_rounded (tone_spectrum [2, 5, 9, 11, 17, 19, 23])))
     = Finite (9586981 / 33554432)
   \<and> f32_val (fst (match_templates (frame_chroma log2f_rounded (tone_spectrum [2, 5, 9, 11, 17, 19, 23]))))
       \<le> 3 / 10
   \<and> chord_chroma silent_chord = replicate 12 (Finite 0)
   \<and> chord_chroma (analyze_chords log2f_rounded (tone_spectrum [2, 5, 9, 11, 17, 19, 23]) silent_chord)
       = [Finite 0, Finite 0, Finite 0, Finite 0, Finite 0, Finite (9586981 / 67108864),
          Finite (9586981 / 67108864), Finite (9586981 / 67108864), Finite (9586981 / 67108864),
          Finite (9586981 / 67108864), Finite (9586981 / 67108864), Finite (9586981 / 67108864)]"
  by (simp add: analyze_chords_fields(4) spread_frame spread_match f32_eval)
     (simp add: silent_chord_def)

text \<open>
  Claim C9, amended.  The root note, the chord type and the confidence are written exactly
  when the winning correlation is greater, as a float, than \<^verbatim>\<open>0.3f\<close> (the number
  5033165 / 16777216, just above 0.3); otherwise they keep their previous values.  The
  chroma snapshot does not depend on the threshold: it is overwritten by the normalised
  chroma whenever the accumulated chroma total is greater than zero, and kept otherwise.
\<close>

theorem chord_update_gate:
  "(\<not> f32_gt (fst (match_templates (frame_chroma log2f s))) (round32 (3/10)) \<longrightarrow>
      root_note (analyze_chords log2f s cc) = root_note cc
    \<and> chord_type (analyze_chords log2f s cc) = chord_type cc
    \<and> chord_confidence (analyze_chords log2f s cc) = chord_confidence cc)
   \<and> (f32_gt (fst (match_templates (frame_chroma log2f s))) (round32 (3/10)) \<longrightarrow>
      root_note (analyze_chords log2f s cc) = int (snd (match_templates (frame_chroma log2f s))) mod 12
    \<and> chord_type (analyze_chords log2f s cc)
        = (if snd (match_templates (frame_chroma log2f s)) \<ge> 12 then 1 else 0)
    \<and> chord_confidence (analyze_chords log2f s cc) = fst (match_templates (frame_chroma log2f s)))
   \<and> round32 (3/10) = Finite (5033165 / 16777216)
   \<and> chord_chroma (analyze_chords log2f s cc) =
       (if f32_gt (chroma_total (chroma_accumulate log2f s FREQ_BINS I2S_SAMPLE_RATE)) (Finite 0)
        then frame_chroma log2f s else chord_chroma cc)"
  by (simp add: analyze_chords_fields literal_0_3f)

theorem chord_update_gate_witness:
  "fst (match_templates (frame_chroma log2f_rounded (tone_spectrum [2, 5, 9, 11, 17, 19, 23])))
     = Finite (9586981 / 33554432)
   \<and> root_note (analyze_chords log2f_rounded (tone_spectrum [2, 5, 9, 11, 17, 19, 23]) silent_chord)
       = root_note silent_chord
   \<and> chord_type (analyze_chords log2f_rounded (tone_spectrum [2, 5, 9, 11, 17, 19, 23]) silent_chord)
       = chord_type silent_chord
   \<and> chord_confidence (analyze_chords log2f_rounded (tone_spectrum [2, 5, 9, 11, 17, 19, 23]) silent_chord)
       = chord_confidence silent_chord
   \<and> f32_gt (fst (match_templates (frame_chroma log2f_rounded (tone_spectrum [3, 9, 15])))) (round32 (3/10))
   \<and> chord_confidence (analyze_chords log2f_rounded (tone_spectrum [3, 9, 15]) silent_chord) = Finite 1"
proof -
  have v: "fst (match_templates (frame_chroma log2f_rounded (tone_spectrum [2, 5, 9, 11, 17, 19, 23])))
     = Finite (9586981 / 33554432)"
    by (simp add: spread_frame spread_match)
  then have lo: "\<not> f32_gt (fst (match_templates (frame_chroma log2f_rounded (tone_spectrum [2, 5, 9, 11, 17, 19, 23]))))
      (round32 (3/10))"
    by (simp add: literal_0_3f f32_eval)
  have m: "match_templates (frame_chroma log2f_rounded (tone_spectrum [3, 9, 15])) = (Finite 1, 0)"
    using c_major_frame[OF c_major_accumulate] by (simp only: c_major_match)
  then have hi: "f32_gt (fst (match_templates (frame_chroma log2f_rounded (tone_spectrum [3, 9, 15]))))
      (round32 (3/10))"
    by (simp add: literal_0_3f f32_eval)
  from chord_update_gate[of log2f_rounded "tone_spectrum [2, 5, 9, 11, 17, 19, 23]" silent_chord] lo
  have a: "root_note (analyze_chords log2f_rounded (tone_spectrum [2, 5, 9, 11, 17, 19, 23]) silent_chord)
       = root_note silent_chord
   \<and> chord_type (analyze_chords log2f_rounded (tone_spectrum [2, 5, 9, 11, 17, 19, 23]) silent_chord)
       = chord_type silent_chord
   \<and> chord_confidence (analyze_chords log2f_rounded (tone_spectrum [2, 5, 9, 11, 17, 19, 23]) silent_chord)
       = chord_confidence silent_chord"
    by blast
  from chord_update_gate[of log2f_rounded "tone_spectrum [3, 9, 15]" silent_chord] hi
  have "chord_confidence (analyze_chords log2f_rounded (tone_spectrum [3, 9, 15]) silent_chord)
      = fst (match_templates (frame_chroma log2f_rounded (tone_spectrum [3, 9, 15])))"
    by blast
  with m have b: "chord_confidence (analyze_chords log2f_rounded (tone_spectrum [3, 9, 15]) silent_chord) = Finite 1"
    by simp
  from v a hi b show ?thesis by blast
qed

end
